theory Spec2Isabelle
  imports Complex_Main
begin

section \<open>Values of the platform and of the storage document\<close>

text \<open>
  The giveaway engine of \<^verbatim>\<open>Giveaway.js\<close> and of the manager module. Identifiers of the
  platform (snowflakes) are strings. Time stamps and counts are JavaScript numbers; the
  model takes the integers among them and keeps \<open>NaN\<close> apart where the code tests for it.
\<close>

type_synonym snowflake = string

datatype jsnum = Num int | NaN

text \<open>A value of the storage document, or one of the fields the engine passes through
  without reading it.\<close>

datatype json = JNull | JBool bool | JNum int | JStr string | JArr "json list"

text \<open>The rejection reasons of the code, one constructor for each message text:
  \<^item> \<open>NotReady\<close>: "The manager is not ready yet."
  \<^item> \<open>InvalidChannel\<close>: "channel is not a valid guildchannel."
  \<^item> \<open>InvalidTime\<close>: "options.time is not a number."
  \<^item> \<open>InvalidPrize\<close>: "options.prize is not a string."
  \<^item> \<open>InvalidWinnerCount\<close>: "options.winnerCount is not a number."
  \<^item> \<open>NoGiveawayFound id\<close>: "No giveaway found with ID ..."
  \<^item> \<open>AlreadyEnded id\<close>: "Giveaway with message ID ... is already ended"
  \<^item> \<open>NotEnded id\<close>: "Giveaway with message ID ... is not ended."
  \<^item> \<open>NoChannel id\<close>: "Unable to get the channel of the giveaway with message ID ..."
  \<^item> \<open>FetchFailed id\<close>: "Unable to fetch message with ID ..."
  \<^item> \<open>Thrown s\<close>: an exception thrown by a predicate of the caller
  \<^item> \<open>TypeError\<close>: a property read on \<open>undefined\<close> or \<open>null\<close>
  \<^item> \<open>ReferenceError\<close>: a \<open>let\<close> variable read before its declaration has run
  \<^item> \<open>StorageSyntaxError\<close>: the storage file does not parse, or is not an array\<close>

datatype error =
    NotReady | InvalidChannel | InvalidTime | InvalidPrize | InvalidWinnerCount
  | NoGiveawayFound "snowflake option"
  | AlreadyEnded "snowflake option" | NotEnded "snowflake option"
  | NoChannel "snowflake option" | FetchFailed "snowflake option"
  | Thrown string | TypeError | ReferenceError | StorageSyntaxError

text \<open>The state of a promise when the operation has run as far as it can: resolved,
  rejected, or never settled (\<open>Pending\<close>: the executor returned or threw without calling
  \<open>resolve\<close> or \<open>reject\<close>).\<close>

datatype 'a promise = Resolved 'a | Rejected error | Pending

record user =
  uid :: snowflake
  bot :: bool

record member =
  member_id :: snowflake
  permissions :: "string list"

type_synonym predicate = "member \<Rightarrow> error + bool"

record message_reaction =
  reaction_key :: string
  emoji_name :: string
  reaction_users :: "user list"

record message =
  message_id :: snowflake
  reactions :: "message_reaction list"
  client_user_id :: snowflake

text \<open>A guild maps the identifier of each current member to the permissions the member
  holds; a channel knows its guild and which of its messages can still be fetched.\<close>

type_synonym guild = "snowflake \<Rightarrow> string list option"

record text_channel =
  channel_id :: snowflake
  guild_id :: snowflake
  channel_guild :: guild
  channel_messages :: "snowflake \<Rightarrow> message option"

record invite =
  invite_guild_name :: string
  invite_code :: string

section \<open>The giveaway data and the giveaway entity\<close>

text \<open>\<open>GiveawayData\<close>: the object the constructor of \<open>Giveaway\<close> receives and keeps as
  \<open>this.options\<close>. A field that is \<open>undefined\<close> or missing is \<open>None\<close>.\<close>

record giveaway_data =
  o_messageID :: "snowflake option"
  o_channelID :: snowflake
  o_guildID :: snowflake
  o_startAt :: int
  o_endAt :: int
  o_ended :: bool
  o_winnerCount :: int
  o_prize :: string
  o_messages :: "json option"
  o_hostedBy :: "string option"
  o_embedColor :: "json option"
  o_embedColorEnd :: "json option"
  o_botsCanWin :: "bool option"
  o_exemptPermissions :: "string list option"
  o_exemptMembers :: "predicate option"
  o_reaction :: "string option"
  o_rolereq :: "json option"
  o_roleid :: "json option"
  o_joinedreq :: "json option"
  o_joinedtime :: "json option"
  o_agereq :: "json option"
  o_agetime :: "json option"
  o_messagereq :: "json option"
  o_messageamount :: "json option"
  o_isdrop :: "json option"
  o_serverreq :: "json option"
  o_serverlink :: "json option"
  o_serverslist :: "json option"
  o_bypassrole :: "json option"
  o_threeSecondsRemaining :: "bool option"
  o_threeSecondsRemaining2 :: "bool option"
  o_giveawayMessageWinner :: "json option"
  o_winnerRole :: "json option"

record giveaway =
  prize :: string
  startAt :: int
  endAt :: int
  ended :: bool
  channelID :: snowflake
  messageID :: "snowflake option"
  guildID :: snowflake
  winnerCount :: int
  hostedBy :: "string option"
  messages :: "json option"
  options :: giveaway_data
  message :: "message option"
  rolereq :: "json option"
  roleid :: "json option"
  joinedreq :: "json option"
  joinedtime :: "json option"
  agereq :: "json option"
  agetime :: "json option"
  messagereq :: "json option"
  messageamount :: "json option"
  isdrop :: "json option"
  serverreq :: "json option"
  serverlink :: "json option"
  serverslist :: "json option"
  bypassrole :: "json option"
  threeSecondsRemaining :: bool
  threeSecondsRemaining2 :: bool

section \<open>The manager, its storage file and the outside world\<close>

text \<open>What \<open>JSON.parse\<close> makes of the storage file: the file is missing, it does not
  parse, it parses to something that is not an array, or it holds an array of records.\<close>

datatype storage_file = Absent | Unparsable | NotAnArray | Records "giveaway_data list"

text \<open>The manager. \<open>Giveaway\<close> objects are mutable and shared between the collection
  \<open>this.giveaways\<close> and the caller that holds one, so they live in a store of objects
  and the collection holds references. The \<open>default_\<close> fields are
  \<open>this.options.default\<close>; \<open>clock_reads\<close> counts the calls of \<open>Date.now\<close>.\<close>

record manager =
  ready :: bool
  giveaways :: "nat list"
  objects :: "nat \<Rightarrow> giveaway option"
  next_ref :: nat
  storage :: storage_file
  default_botsCanWin :: bool
  default_exemptPermissions :: "string list"
  default_exemptMembers :: "predicate option"
  default_reaction :: string
  updateCountdownEvery :: int
  clock_reads :: nat

text \<open>What the platform and the runtime answer during an operation: the channel cache of
  the client, the readings of the clock in the order they are taken, the values
  \<open>Math.random\<close> yields (as indices), the invite a link resolves to, and the identifier
  of the message \<open>channel.send\<close> posts (\<open>None\<close> when sending fails).\<close>

record world =
  channels :: "snowflake \<Rightarrow> text_channel option"
  clock :: "nat \<Rightarrow> int"
  random_values :: "nat list"
  fetchInvite :: "json \<Rightarrow> invite option"
  send_result :: "snowflake option"
  defaultGiveawayMessages :: json

subsection \<open>Constructor and accessors of \<open>Giveaway\<close>\<close>

definition new_Giveaway :: "giveaway_data \<Rightarrow> giveaway" where
  "new_Giveaway opts =
     \<lparr> prize = o_prize opts,
       startAt = o_startAt opts,
       endAt = o_endAt opts,
       ended = o_ended opts,
       channelID = o_channelID opts,
       messageID = o_messageID opts,
       guildID = o_guildID opts,
       winnerCount = o_winnerCount opts,
       hostedBy = o_hostedBy opts,
       messages = o_messages opts,
       options = opts,
       message = None,
       rolereq = o_rolereq opts,
       roleid = o_roleid opts,
       joinedreq = o_joinedreq opts,
       joinedtime = o_joinedtime opts,
       agereq = o_agereq opts,
       agetime = o_agetime opts,
       messagereq = o_messagereq opts,
       messageamount = o_messageamount opts,
       isdrop = o_isdrop opts,
       serverreq = o_serverreq opts,
       serverlink = o_serverlink opts,
       serverslist = o_serverslist opts,
       bypassrole = o_bypassrole opts,
       threeSecondsRemaining = False,
       threeSecondsRemaining2 = False \<rparr>"

text \<open>\<open>Date.now()\<close>: the next reading of the clock.\<close>

definition Date_now :: "world \<Rightarrow> manager \<Rightarrow> int \<times> manager" where
  "Date_now w m = (clock w (clock_reads m), m\<lparr>clock_reads := Suc (clock_reads m)\<rparr>)"

definition remainingTime :: "world \<Rightarrow> manager \<Rightarrow> giveaway \<Rightarrow> int \<times> manager" where
  "remainingTime w m g = (case Date_now w m of (now, m') \<Rightarrow> (endAt g - now, m'))"

definition giveawayDuration :: "giveaway \<Rightarrow> int" where
  "giveawayDuration g = endAt g - startAt g"

text \<open>\<open>a || b\<close> on the options: the empty string and \<open>false\<close> are falsy, so they give way
  to the default; an empty array is truthy.\<close>

definition reaction :: "manager \<Rightarrow> giveaway \<Rightarrow> string" where
  "reaction m g =
     (case o_reaction (options g) of
        Some r \<Rightarrow> if r \<noteq> [] then r else default_reaction m
      | None \<Rightarrow> default_reaction m)"

definition botsCanWin :: "manager \<Rightarrow> giveaway \<Rightarrow> bool" where
  "botsCanWin m g =
     (case o_botsCanWin (options g) of
        Some b \<Rightarrow> if b then b else default_botsCanWin m
      | None \<Rightarrow> default_botsCanWin m)"

definition exemptPermissions :: "manager \<Rightarrow> giveaway \<Rightarrow> string list" where
  "exemptPermissions m g =
     (case o_exemptPermissions (options g) of
        Some ps \<Rightarrow> ps
      | None \<Rightarrow> default_exemptPermissions m)"

text \<open>\<open>exemptMembers\<close>: the predicate of the giveaway runs inside \<open>try\<close>/\<open>catch\<close>; the
  predicate of the manager's defaults is awaited as it is.\<close>

definition exemptMembers :: "manager \<Rightarrow> giveaway \<Rightarrow> member \<Rightarrow> error + bool" where
  "exemptMembers m g mem =
     (case o_exemptMembers (options g) of
        Some f \<Rightarrow> (case f mem of Inr result \<Rightarrow> Inr result | Inl err \<Rightarrow> Inr False)
      | None \<Rightarrow>
          (case default_exemptMembers m of
             Some f \<Rightarrow> f mem
           | None \<Rightarrow> Inr False))"

definition channel :: "world \<Rightarrow> giveaway \<Rightarrow> text_channel option" where
  "channel w g = channels w (channelID g)"

definition data :: "giveaway \<Rightarrow> giveaway_data" where
  "data g =
     \<lparr> o_messageID = messageID g,
       o_channelID = channelID g,
       o_guildID = guildID g,
       o_startAt = startAt g,
       o_endAt = endAt g,
       o_ended = ended g,
       o_winnerCount = winnerCount g,
       o_prize = prize g,
       o_messages = messages g,
       o_hostedBy = o_hostedBy (options g),
       o_embedColor = o_embedColor (options g),
       o_embedColorEnd = o_embedColorEnd (options g),
       o_botsCanWin = o_botsCanWin (options g),
       o_exemptPermissions = o_exemptPermissions (options g),
       o_exemptMembers = o_exemptMembers (options g),
       o_reaction = o_reaction (options g),
       o_rolereq = o_rolereq (options g),
       o_roleid = o_roleid (options g),
       o_joinedreq = o_joinedreq (options g),
       o_joinedtime = o_joinedtime (options g),
       o_agereq = o_agereq (options g),
       o_agetime = o_agetime (options g),
       o_messagereq = o_messagereq (options g),
       o_messageamount = o_messageamount (options g),
       o_isdrop = o_isdrop (options g),
       o_serverreq = o_serverreq (options g),
       o_serverlink = o_serverlink (options g),
       o_serverslist = o_serverslist (options g),
       o_bypassrole = o_bypassrole (options g),
       o_threeSecondsRemaining = None,
       o_threeSecondsRemaining2 = None,
       o_giveawayMessageWinner = None,
       o_winnerRole = None \<rparr>"

subsection \<open>Writing and reading the storage file\<close>

text \<open>\<open>JSON.stringify\<close> leaves out a property whose value is a function.\<close>

definition stringify :: "giveaway_data \<Rightarrow> giveaway_data" where
  "stringify d = d\<lparr>o_exemptMembers := None\<rparr>"

text \<open>\<open>saveGiveaway\<close>, \<open>editGiveaway\<close> and \<open>deleteGiveaway\<close> have the same body: they
  write the \<open>data\<close> of every giveaway of the collection, whatever their arguments.\<close>

definition write_storage :: "manager \<Rightarrow> manager" where
  "write_storage m =
     m\<lparr>storage :=
         Records (List.map_filter (\<lambda>a. map_option (\<lambda>g. stringify (data g)) (objects m a))
                    (giveaways m))\<rparr>"

definition saveGiveaway :: "manager \<Rightarrow> manager" where
  "saveGiveaway m = write_storage m"

definition editGiveaway :: "manager \<Rightarrow> manager" where
  "editGiveaway m = write_storage m"

definition deleteGiveaway :: "manager \<Rightarrow> manager" where
  "deleteGiveaway m = write_storage m"

definition getAllGiveaways :: "manager \<Rightarrow> (error + giveaway_data list) \<times> manager" where
  "getAllGiveaways m =
     (case storage m of
        Absent \<Rightarrow> (Inr [], m\<lparr>storage := Records []\<rparr>)
      | Unparsable \<Rightarrow> (Inl StorageSyntaxError, m)
      | NotAnArray \<Rightarrow> (Inl StorageSyntaxError, m)
      | Records ds \<Rightarrow> (Inr ds, m))"

text \<open>\<open>this.giveaways.push(new Giveaway(this, giveaway))\<close>: the new object takes the next
  free reference.\<close>

definition push_new :: "giveaway_data \<Rightarrow> manager \<Rightarrow> manager" where
  "push_new d m =
     m\<lparr>objects := (objects m)(next_ref m \<mapsto> new_Giveaway d),
       giveaways := giveaways m @ [next_ref m],
       next_ref := Suc (next_ref m)\<rparr>"

text \<open>\<open>_init\<close>: when reading the storage throws, the collection stays empty and \<open>ready\<close>
  stays false.\<close>

definition init :: "manager \<Rightarrow> manager" where
  "init m =
     (case getAllGiveaways m of
        (Inl e, m1) \<Rightarrow> m1
      | (Inr rawGiveaways, m1) \<Rightarrow> (fold push_new rawGiveaways m1)\<lparr>ready := True\<rparr>)"

subsection \<open>Fetching the announcement\<close>

text \<open>\<open>fetchMessage\<close>: without a message identifier the executor returns and the promise
  never settles; a message that cannot be fetched takes the giveaway out of the
  collection and out of the storage file before the promise rejects. The field \<open>message\<close>
  is written on success only.\<close>

definition fetchMessage :: "world \<Rightarrow> manager \<Rightarrow> nat \<Rightarrow> message promise \<times> manager" where
  "fetchMessage w m a =
     (case objects m a of
        None \<Rightarrow> (Pending, m)
      | Some g \<Rightarrow>
          (case messageID g of
             None \<Rightarrow> (Pending, m)
           | Some mid \<Rightarrow>
               if mid = [] then (Pending, m)
               else
                 (case channel w g of
                    None \<Rightarrow> (Pending, m)
                  | Some ch \<Rightarrow>
                      (case channel_messages ch mid of
                         None \<Rightarrow>
                           (Rejected (FetchFailed (Some mid)),
                            deleteGiveaway
                              (m\<lparr>giveaways :=
                                    filter (\<lambda>b. map_option messageID (objects m b)
                                                \<noteq> Some (Some mid))
                                      (giveaways m)\<rparr>))
                       | Some msg \<Rightarrow>
                           (Resolved msg,
                            m\<lparr>objects := (objects m)(a \<mapsto> g\<lparr>message := Some msg\<rparr>)\<rparr>)))))"

section \<open>Entries and winner selection\<close>

text \<open>\<open>reactions.get(this.reaction) || reactions.find(r => r.emoji.name === this.reaction)\<close>\<close>

definition find_reaction :: "message \<Rightarrow> string \<Rightarrow> message_reaction option" where
  "find_reaction msg key =
     (case find (\<lambda>r. reaction_key r = key) (reactions msg) of
        Some r \<Rightarrow> Some r
      | None \<Rightarrow> find (\<lambda>r. emoji_name r = key) (reactions msg))"

text \<open>\<open>guild.member(id)\<close>: the member with that identifier, if the guild has one.\<close>

definition guild_member :: "guild \<Rightarrow> snowflake \<Rightarrow> member option" where
  "guild_member gd i = map_option (\<lambda>ps. \<lparr>member_id = i, permissions = ps\<rparr>) (gd i)"

text \<open>\<open>member.hasPermission(p)\<close> is the platform's test; a member is given here with all
  the permissions the platform counts as held.\<close>

definition hasPermission :: "member \<Rightarrow> string \<Rightarrow> bool" where
  "hasPermission mem p = (p \<in> set (permissions mem))"

text \<open>What \<open>ValidEntry\<close> returns: the empty array of its two early returns, or the size
  of the filtered collection of users.\<close>

datatype entries = EmptyArray | Size nat

definition ValidEntry :: "world \<Rightarrow> manager \<Rightarrow> giveaway \<Rightarrow> error + entries" where
  "ValidEntry w m g =
     (case message g of
        None \<Rightarrow> Inr EmptyArray
      | Some msg \<Rightarrow>
          (case find_reaction msg (reaction m g) of
             None \<Rightarrow> Inr EmptyArray
           | Some r \<Rightarrow>
               (case channel w g of
                  None \<Rightarrow> Inl TypeError
                | Some ch \<Rightarrow>
                    Inr (Size (length (filter (\<lambda>u. uid u \<noteq> client_user_id msg)
                                         (reaction_users r)))))))"

text \<open>The loop of \<open>roll\<close> over \<open>users.array()\<close>: it walks a copy of the collection and
  deletes from the collection, by identifier, each user whose member is exempt. An
  exception of \<open>exemptMembers\<close> leaves the loop and \<open>roll\<close>.\<close>

fun exempt_loop :: "(member \<Rightarrow> error + bool) \<Rightarrow> guild \<Rightarrow> user list \<Rightarrow> user list
    \<Rightarrow> error + user list" where
  "exempt_loop ex gd [] users = Inr users"
| "exempt_loop ex gd (u # us) users =
     (case guild_member gd (uid u) of
        None \<Rightarrow> Inl TypeError
      | Some mem \<Rightarrow>
          (case ex mem of
             Inl e \<Rightarrow> Inl e
           | Inr exemptMember \<Rightarrow>
               exempt_loop ex gd us
                 (if exemptMember then filter (\<lambda>v. uid v \<noteq> uid u) users else users)))"

text \<open>The collection \<open>users\<close> of \<open>roll\<close> when it reaches \<open>.random\<close>: the reactors after
  the filters on the bot flag, on the client's own identifier and on membership, after
  the loop of exemptions and after the filter on the exempt permissions.\<close>

definition candidates :: "manager \<Rightarrow> giveaway \<Rightarrow> message \<Rightarrow> guild \<Rightarrow> user list
    \<Rightarrow> error + user list" where
  "candidates m g msg gd reactors =
     (let users = filter (\<lambda>u. guild_member gd (uid u) \<noteq> None)
                    (filter (\<lambda>u. uid u \<noteq> client_user_id msg)
                       (filter (\<lambda>u. bot u = botsCanWin m g) reactors))
      in case exempt_loop (exemptMembers m g) gd users users of
           Inl e \<Rightarrow> Inl e
         | Inr users' \<Rightarrow>
             Inr (filter (\<lambda>u. \<not> list_ex (\<lambda>p. case guild_member gd (uid u) of
                                                  None \<Rightarrow> False
                                                | Some mem \<Rightarrow> hasPermission mem p)
                                  (exemptPermissions m g))
                    users'))"

text \<open>Modelled from the spec: \<open>Collection.random\<close> belongs to the platform library and is
  not in the repository. It draws \<open>amount\<close> times from a copy of the array, each time
  splicing out the element at a random index, so that no element is drawn twice; once the
  copy is empty a draw yields \<open>undefined\<close> (\<open>None\<close>), which \<open>roll\<close> filters out. On an
  empty collection or a falsy amount it returns the empty array.\<close>

fun splice_draws :: "nat list \<Rightarrow> nat \<Rightarrow> 'a list \<Rightarrow> 'a option list" where
  "splice_draws rs 0 arr = []"
| "splice_draws rs (Suc n) arr =
     (if arr = [] then None # splice_draws rs n arr
      else
        let i = (case rs of [] \<Rightarrow> 0 | r # _ \<Rightarrow> r mod length arr)
        in Some (arr ! i) # splice_draws (tl rs) n (take i arr @ drop (Suc i) arr))"

definition collection_random :: "nat list \<Rightarrow> int \<Rightarrow> 'a list \<Rightarrow> 'a option list" where
  "collection_random rs amount arr =
     (if arr = [] \<or> amount = 0 then [] else splice_draws rs (nat amount) arr)"

text \<open>\<open>winnerCount || this.winnerCount\<close>: the number of draws \<open>roll\<close> asks for.\<close>

definition requested :: "giveaway \<Rightarrow> int option \<Rightarrow> int" where
  "requested g winnerCountArg =
     (case winnerCountArg of
        Some n \<Rightarrow> if n \<noteq> 0 then n else winnerCount g
      | None \<Rightarrow> winnerCount g)"

text \<open>\<open>roll(winnerCount)\<close>: the drawn users that are not \<open>undefined\<close> are mapped to
  their members. The filters before the draw keep members of the guild only, so
  \<open>guild.member\<close> finds each of them.\<close>

definition roll :: "world \<Rightarrow> manager \<Rightarrow> giveaway \<Rightarrow> int option
    \<Rightarrow> error + member option list" where
  "roll w m g winnerCountArg =
     (case message g of
        None \<Rightarrow> Inr []
      | Some msg \<Rightarrow>
          (case find_reaction msg (reaction m g) of
             None \<Rightarrow> Inr []
           | Some r \<Rightarrow>
               (case channel w g of
                  None \<Rightarrow> Inl TypeError
                | Some ch \<Rightarrow>
                    (case candidates m g msg (channel_guild ch) (reaction_users r) of
                       Inl e \<Rightarrow> Inl e
                     | Inr users \<Rightarrow>
                         Inr (map (\<lambda>u. guild_member (channel_guild ch) (uid u))
                                (List.map_filter id
                                   (collection_random (random_values w)
                                      (requested g winnerCountArg) users)))))))"

section \<open>Editing, ending and rerolling a giveaway\<close>

record edit_options =
  newWinnerCount :: "int option"
  newPrize :: "string option"
  addTime :: "int option"
  setEndTimestamp :: "int option"

text \<open>The four assignments of \<open>edit\<close>, in the order of the code; each is guarded by the
  truthiness of its option.\<close>

definition update_data :: "edit_options \<Rightarrow> giveaway \<Rightarrow> giveaway" where
  "update_data opts g =
     (let g1 = (case newWinnerCount opts of
                  Some n \<Rightarrow> if n \<noteq> 0 then g\<lparr>winnerCount := n\<rparr> else g
                | None \<Rightarrow> g);
          g2 = (case newPrize opts of
                  Some p \<Rightarrow> if p \<noteq> [] then g1\<lparr>prize := p\<rparr> else g1
                | None \<Rightarrow> g1);
          g3 = (case addTime opts of
                  Some t \<Rightarrow> if t \<noteq> 0 then g2\<lparr>endAt := endAt g2 + t\<rparr> else g2
                | None \<Rightarrow> g2)
      in (case setEndTimestamp opts of
            Some t \<Rightarrow> if t \<noteq> 0 then g3\<lparr>endAt := t\<rparr> else g3
          | None \<Rightarrow> g3))"

text \<open>\<open>edit\<close> resolves with the giveaway itself, here its reference. After
  \<open>await this.fetchMessage().catch(() => {})\<close> the code tests the field \<open>message\<close>, not
  the outcome of the fetch.\<close>

definition edit :: "world \<Rightarrow> manager \<Rightarrow> nat \<Rightarrow> edit_options \<Rightarrow> nat promise \<times> manager" where
  "edit w m a opts =
     (case objects m a of
        None \<Rightarrow> (Pending, m)
      | Some g \<Rightarrow>
          if ended g then (Rejected (AlreadyEnded (messageID g)), m)
          else if channel w g = None then (Rejected (NoChannel (messageID g)), m)
          else
            (case fetchMessage w m a of
               (Pending, m1) \<Rightarrow> (Pending, m1)
             | (_, m1) \<Rightarrow>
                 (case objects m1 a of
                    None \<Rightarrow> (Pending, m1)
                  | Some g1 \<Rightarrow>
                      if message g1 = None then (Rejected (FetchFailed (messageID g1)), m1)
                      else
                        (Resolved a,
                         editGiveaway
                           (m1\<lparr>objects := (objects m1)(a \<mapsto> update_data opts g1)\<rparr>)))))"

text \<open>\<open>end\<close> sets \<open>ended\<close> before it fetches the message. It resolves with the winners, or
  with \<open>undefined\<close> (\<open>None\<close>) when there is none. An exception of \<open>roll\<close> or of
  \<open>ValidEntry\<close> is thrown inside the executor, and the promise never settles.\<close>

definition end_giveaway :: "world \<Rightarrow> manager \<Rightarrow> nat
    \<Rightarrow> member option list option promise \<times> manager" where
  "end_giveaway w m a =
     (case objects m a of
        None \<Rightarrow> (Pending, m)
      | Some g \<Rightarrow>
          if ended g then (Rejected (AlreadyEnded (messageID g)), m)
          else if channel w g = None then (Rejected (NoChannel (messageID g)), m)
          else
            (case fetchMessage w (m\<lparr>objects := (objects m)(a \<mapsto> g\<lparr>ended := True\<rparr>)\<rparr>) a of
               (Pending, m1) \<Rightarrow> (Pending, m1)
             | (_, m1) \<Rightarrow>
                 (case objects m1 a of
                    None \<Rightarrow> (Pending, m1)
                  | Some g1 \<Rightarrow>
                      if message g1 = None then (Rejected (FetchFailed (messageID g1)), m1)
                      else
                        (case roll w m1 g1 None of
                           Inl e \<Rightarrow> (Pending, m1)
                         | Inr winners \<Rightarrow>
                             (case ValidEntry w m1 g1 of
                                Inl e \<Rightarrow> (Pending, m1)
                              | Inr entries \<Rightarrow>
                                  if length winners > 0
                                  then (Resolved (Some winners), editGiveaway m1)
                                  else (Resolved None, editGiveaway m1))))))"

text \<open>\<open>reroll\<close> of a giveaway; of its options only \<open>winnerCount\<close> reaches the state,
  the messages go to the channel.\<close>

record reroll_options =
  reroll_winnerCount :: "int option"

definition reroll :: "world \<Rightarrow> manager \<Rightarrow> nat \<Rightarrow> reroll_options
    \<Rightarrow> member option list promise \<times> manager" where
  "reroll w m a opts =
     (case objects m a of
        None \<Rightarrow> (Pending, m)
      | Some g \<Rightarrow>
          if \<not> ended g then (Rejected (NotEnded (messageID g)), m)
          else if channel w g = None then (Rejected (NoChannel (messageID g)), m)
          else
            (case fetchMessage w m a of
               (Pending, m1) \<Rightarrow> (Pending, m1)
             | (_, m1) \<Rightarrow>
                 (case objects m1 a of
                    None \<Rightarrow> (Pending, m1)
                  | Some g1 \<Rightarrow>
                      if message g1 = None then (Rejected (FetchFailed (messageID g1)), m1)
                      else
                        (case roll w m1 g1 (reroll_winnerCount opts) of
                           Inl e \<Rightarrow> (Pending, m1)
                         | Inr winners \<Rightarrow>
                             if length winners > 0 then (Resolved winners, m1)
                             else (Resolved [], m1)))))"

section \<open>The winning chance\<close>

text \<open>The eligible set: the collection \<open>roll\<close> draws from, which is empty on the two
  early returns of \<open>roll\<close>.\<close>

definition eligible :: "world \<Rightarrow> manager \<Rightarrow> giveaway \<Rightarrow> error + user list" where
  "eligible w m g =
     (case message g of
        None \<Rightarrow> Inr []
      | Some msg \<Rightarrow>
          (case find_reaction msg (reaction m g) of
             None \<Rightarrow> Inr []
           | Some r \<Rightarrow>
               (case channel w g of
                  None \<Rightarrow> Inl TypeError
                | Some ch \<Rightarrow> candidates m g msg (channel_guild ch) (reaction_users r))))"

text \<open>Modelled from the spec: \<open>Giveaway.winningChance\<close>, which the manager calls and which
  the source files at hand do not define. The spec: "\<open>winningChance\<close> equals
  \<open>min(1, winnerCount / max(1, eligibleCount))\<close> where \<open>eligibleCount\<close> is the post-filter
  candidate count used by selection".\<close>

definition winningChance :: "world \<Rightarrow> manager \<Rightarrow> giveaway \<Rightarrow> error + rat" where
  "winningChance w m g =
     (case eligible w m g of
        Inl e \<Rightarrow> Inl e
      | Inr users \<Rightarrow>
          Inr (min 1 (rat_of_int (winnerCount g) / rat_of_nat (max 1 (length users)))))"

section \<open>The manager's operations\<close>

text \<open>\<open>this.giveaways.find((g) => g.messageID === messageID)\<close>\<close>

definition find_giveaway :: "manager \<Rightarrow> snowflake option \<Rightarrow> nat option" where
  "find_giveaway m mid =
     find (\<lambda>a. map_option messageID (objects m a) = Some mid) (giveaways m)"

definition Manager_end :: "world \<Rightarrow> manager \<Rightarrow> snowflake option
    \<Rightarrow> member option list option promise \<times> manager" where
  "Manager_end w m mid =
     (case find_giveaway m mid of
        None \<Rightarrow> (Rejected (NoGiveawayFound mid), m)
      | Some a \<Rightarrow> end_giveaway w m a)"

definition Manager_edit :: "world \<Rightarrow> manager \<Rightarrow> snowflake option \<Rightarrow> edit_options
    \<Rightarrow> nat promise \<times> manager" where
  "Manager_edit w m mid opts =
     (case find_giveaway m mid of
        None \<Rightarrow> (Rejected (NoGiveawayFound mid), m)
      | Some a \<Rightarrow> edit w m a opts)"

definition ValidEntries :: "world \<Rightarrow> manager \<Rightarrow> snowflake option \<Rightarrow> entries promise" where
  "ValidEntries w m mid =
     (case find_giveaway m mid of
        None \<Rightarrow> Rejected (NoGiveawayFound mid)
      | Some a \<Rightarrow>
          (case objects m a of
             None \<Rightarrow> Pending
           | Some g \<Rightarrow> (case ValidEntry w m g of Inl e \<Rightarrow> Rejected e | Inr n \<Rightarrow> Resolved n)))"

text \<open>The manager's \<open>winningChance(messageID)\<close>, which finds the giveaway and hands
  over to the giveaway's own \<open>winningChance\<close>.\<close>

definition Manager_winningChance :: "world \<Rightarrow> manager \<Rightarrow> snowflake option \<Rightarrow> rat promise" where
  "Manager_winningChance w m mid =
     (case find_giveaway m mid of
        None \<Rightarrow> Rejected (NoGiveawayFound mid)
      | Some a \<Rightarrow>
          (case objects m a of
             None \<Rightarrow> Pending
           | Some g \<Rightarrow> (case winningChance w m g of Inl e \<Rightarrow> Rejected e | Inr c \<Rightarrow> Resolved c)))"

subsection \<open>The requirement text\<close>

definition is_array :: "json option \<Rightarrow> bool" where
  "is_array v = (case v of Some (JArr xs) \<Rightarrow> True | _ \<Rightarrow> False)"

definition array_length :: "json option \<Rightarrow> nat" where
  "array_length v = (case v of Some (JArr xs) \<Rightarrow> length xs | _ \<Rightarrow> 0)"

definition array_elements :: "json option \<Rightarrow> json list" where
  "array_elements v = (case v of Some (JArr xs) \<Rightarrow> xs | _ \<Rightarrow> [])"

text \<open>The warning sign that opens each line, as its bytes in UTF-8.\<close>

definition warning_sign :: string where
  "warning_sign = [CHR 0xE2, CHR 0x9A, CHR 0xA0, CHR 0xEF, CHR 0xB8, CHR 0x8F]"

definition server_line :: "invite \<Rightarrow> string" where
  "server_line iv =
     warning_sign @ '' Should be in ['' @ invite_guild_name iv
       @ ''](https://discord.gg/'' @ invite_code iv @ '').''"

definition error_line :: string where
  "error_line =
     warning_sign @ '' Some of the server requirements doesn'' @ [CHR 0x27]
       @ ''t work properly. Please make sure that the invite links are permanent.''"

text \<open>\<open>addserver\<close> and \<open>adderror\<close>, run for each link once its invite has or has not
  been resolved; the callbacks run here in the order of the links. Only \<open>addserver\<close>
  counts the line.\<close>

fun add_lines :: "(json \<Rightarrow> invite option) \<Rightarrow> json list \<Rightarrow> string \<times> nat \<Rightarrow> string \<times> nat" where
  "add_lines f [] acc = acc"
| "add_lines f (l # ls) (lines, linec) =
     add_lines f ls
       (case f l of
          Some iv \<Rightarrow>
            (lines @ (if linec = 0 then server_line iv else CHR 0x0A # server_line iv),
             Suc linec)
        | None \<Rightarrow>
            (lines @ (if linec = 0 then error_line else CHR 0x0A # error_line), linec))"

text \<open>The part of the requirement refresh after the fetch: \<open>serverslist\<close> is emptied, the
  links are resolved through \<open>giveaway.message.client\<close> (a \<open>TypeError\<close> when there is
  no message), and the storage file is written.\<close>

definition refresh_serverslist :: "world \<Rightarrow> manager \<Rightarrow> nat \<Rightarrow> unit promise \<times> manager" where
  "refresh_serverslist w m a =
     (case objects m a of
        None \<Rightarrow> (Rejected TypeError, m)
      | Some g \<Rightarrow>
          let links = (if is_array (serverlink g) \<and> array_length (serverlink g) > 1
                       then array_elements (serverlink g)
                       else if is_array (serverlink g) \<and> array_length (serverlink g) = 1
                       then [JArr (array_elements (serverlink g))]
                       else [])
          in if links \<noteq> [] \<and> message g = None
             then (Rejected TypeError,
                   m\<lparr>objects := (objects m)(a \<mapsto> g\<lparr>serverslist := Some (JStr [])\<rparr>)\<rparr>)
             else
               (Resolved (),
                editGiveaway
                  (m\<lparr>objects := (objects m)
                        (a \<mapsto> g\<lparr>serverslist :=
                                  Some (JStr (fst (add_lines (fetchInvite w) links ([], 0))))\<rparr>)\<rparr>)))"

definition updateServerRequirement :: "world \<Rightarrow> manager \<Rightarrow> nat \<Rightarrow> unit promise \<times> manager" where
  "updateServerRequirement w m a =
     (case objects m a of
        None \<Rightarrow> (Resolved (), m)
      | Some g \<Rightarrow>
          if ended g then (Resolved (), m)
          else if channel w g = None then (Resolved (), m)
          else
            (case remainingTime w m g of
               (rt, m0) \<Rightarrow>
                 if rt \<le> 0 then
                   (case Manager_end w m0 (messageID g) of
                      (Pending, m1) \<Rightarrow> (Pending, m1)
                    | (_, m1) \<Rightarrow> (Resolved (), m1))
                 else
                   (case fetchMessage w m0 a of
                      (Pending, m1) \<Rightarrow> (Pending, m1)
                    | (_, m1) \<Rightarrow> refresh_serverslist w m1 a)))"

text \<open>The body \<open>_updateServerRequirement\<close> runs for each giveaway; its promise is dropped
  by \<open>forEach\<close>.\<close>

definition updateServerRequirement_each :: "world \<Rightarrow> nat \<Rightarrow> manager \<Rightarrow> manager" where
  "updateServerRequirement_each w a m =
     (case objects m a of
        None \<Rightarrow> m
      | Some g \<Rightarrow>
          if ended g then m
          else if channel w g = None then m
          else
            (case fetchMessage w m a of
               (Pending, m1) \<Rightarrow> m1
             | (_, m1) \<Rightarrow> snd (refresh_serverslist w m1 a)))"

definition updateServerRequirement_all :: "world \<Rightarrow> manager \<Rightarrow> manager" where
  "updateServerRequirement_all w m =
     (if length (giveaways m) \<le> 0 then m
      else fold (updateServerRequirement_each w) (giveaways m) m)"

subsection \<open>The ticks of the scheduler\<close>

text \<open>The ticks run the body below for each giveaway of the collection, here one giveaway
  after the other. What a body renders and sends to the platform (the embed with the
  winning chance and the time left, \<open>message.edit\<close>) does not come back into the state
  and is left out, except where an exception while rendering keeps a later step from
  running; so is the timer \<open>_updateGiveaway\<close> sets for a later call of \<open>end\<close>.\<close>

definition checkGiveaway_each :: "world \<Rightarrow> nat \<Rightarrow> manager \<Rightarrow> manager" where
  "checkGiveaway_each w a m =
     (case objects m a of
        None \<Rightarrow> m
      | Some g \<Rightarrow>
          if ended g then m
          else if threeSecondsRemaining g then m
          else if channel w g = None then m
          else
            (case remainingTime w m g of
               (rt, m0) \<Rightarrow>
                 if rt \<le> 0 then snd (Manager_end w m0 (messageID g))
                 else
                   (case fetchMessage w m0 a of
                      (Pending, m1) \<Rightarrow> m1
                    | (_, m1) \<Rightarrow>
                        (case objects m1 a of
                           None \<Rightarrow> m1
                         | Some g1 \<Rightarrow>
                             if message g1 = None
                             then editGiveaway
                                    (m1\<lparr>objects := (objects m1)(a \<mapsto> g1\<lparr>ended := True\<rparr>)\<rparr>)
                             else m1))))"

definition checkGiveaway :: "world \<Rightarrow> manager \<Rightarrow> manager" where
  "checkGiveaway w m =
     (if length (giveaways m) \<le> 0 then m
      else fold (checkGiveaway_each w) (giveaways m) m)"

text \<open>\<open>lastGiveaway\<close>, whose body is given in two parts: up to the fetch of the message
  (\<open>lastGiveaway_each\<close>), and from there on (\<open>final_countdown\<close>). The three edits of the last seconds are sent one second apart; no
  other operation runs in between here, so the giveaway is still not ended at the end of
  the countdown and \<open>end\<close> is called. The embed of the first edit is built by
  \<open>embed()\<close>, which awaits \<open>winningChance\<close> and lists the bypass roles with the same
  early read of \<open>c\<close> as \<open>_updateGiveaway\<close>; an exception there leaves the body before
  \<open>end\<close> is called.\<close>

definition final_countdown :: "world \<Rightarrow> nat \<Rightarrow> manager \<Rightarrow> manager" where
  "final_countdown w a m1 =
     (case objects m1 a of
        None \<Rightarrow> m1
      | Some g1 \<Rightarrow>
          (case remainingTime w m1 g1 of
             (rt2, m2) \<Rightarrow>
               let g2 = (if rt2 < 4000 then g1\<lparr>threeSecondsRemaining := True\<rparr> else g1);
                   m3 = m2\<lparr>objects := (objects m2)(a \<mapsto> g2)\<rparr>
               in if message g2 = None then m3
                  else if threeSecondsRemaining g2 \<and> \<not> threeSecondsRemaining2 g2
                  then
                    let g3 = g2\<lparr>threeSecondsRemaining2 := True\<rparr>;
                        m4 = editGiveaway (m3\<lparr>objects := (objects m3)(a \<mapsto> g3)\<rparr>)
                    in (case winningChance w m4 g3 of
                          Inl e \<Rightarrow> m4
                        | Inr chance \<Rightarrow>
                            if is_array (bypassrole g3) \<and> array_length (bypassrole g3) > 1
                            then m4
                            else snd (Manager_end w m4 (messageID g3)))
                  else m3))"

definition lastGiveaway_each :: "world \<Rightarrow> nat \<Rightarrow> manager \<Rightarrow> manager" where
  "lastGiveaway_each w a m =
     (case objects m a of
        None \<Rightarrow> m
      | Some g \<Rightarrow>
          if ended g then m
          else if channel w g = None then m
          else
            (case remainingTime w m g of
               (rt, m0) \<Rightarrow>
                 if rt \<le> 0 then snd (Manager_end w m0 (messageID g))
                 else
                   (case fetchMessage w m0 a of
                      (Pending, m1) \<Rightarrow> m1
                    | (_, m1) \<Rightarrow> final_countdown w a m1)))"

definition lastGiveaway :: "world \<Rightarrow> manager \<Rightarrow> manager" where
  "lastGiveaway w m =
     (if length (giveaways m) \<le> 0 then m
      else fold (lastGiveaway_each w) (giveaways m) m)"

text \<open>\<open>_updateGiveaway\<close>, which \<open>start\<close> awaits. An exception of \<open>winningChance\<close>
  leaves the function. The callback that lists the bypass roles reads \<open>c\<close> before the
  \<open>let c\<close> below it has run, so a list of two or more bypass roles throws.\<close>

definition updateGiveaway :: "world \<Rightarrow> manager \<Rightarrow> nat \<Rightarrow> unit promise \<times> manager" where
  "updateGiveaway w m a =
     (case objects m a of
        None \<Rightarrow> (Resolved (), m)
      | Some g \<Rightarrow>
          if ended g then (Resolved (), m)
          else if channel w g = None then (Resolved (), m)
          else
            (case remainingTime w m g of
               (rt, m0) \<Rightarrow>
                 if rt \<le> 0 then
                   (case Manager_end w m0 (messageID g) of
                      (Pending, m1) \<Rightarrow> (Pending, m1)
                    | (_, m1) \<Rightarrow> (Resolved (), m1))
                 else
                   (case fetchMessage w m0 a of
                      (Pending, m1) \<Rightarrow> (Pending, m1)
                    | (_, m1) \<Rightarrow>
                        (case objects m1 a of
                           None \<Rightarrow> (Resolved (), m1)
                         | Some g1 \<Rightarrow>
                             if message g1 = None
                             then (Resolved (),
                                   editGiveaway
                                     (m1\<lparr>objects := (objects m1)(a \<mapsto> g1\<lparr>ended := True\<rparr>)\<rparr>))
                             else
                               (case winningChance w m1 g1 of
                                  Inl e \<Rightarrow> (Rejected e, m1)
                                | Inr chance \<Rightarrow>
                                    (case updateServerRequirement w m1 a of
                                       (Resolved u, m2) \<Rightarrow>
                                         if is_array (bypassrole g1)
                                            \<and> array_length (bypassrole g1) > 1
                                         then (Rejected ReferenceError, m2)
                                         else (Resolved (), m2)
                                     | (r, m2) \<Rightarrow> (r, m2)))))))"

subsection \<open>Starting a giveaway\<close>

record start_options =
  time :: "jsnum option"
  s_prize :: "string option"
  s_winnerCount :: "jsnum option"
  s_hostedBy :: "string option"
  s_messages :: "json option"
  s_reaction :: "string option"
  s_botsCanWin :: "bool option"
  s_exemptPermissions :: "string list option"
  s_exemptMembers :: "predicate option"
  s_embedColor :: "json option"
  s_embedColorEnd :: "json option"
  s_rolereq :: "json option"
  s_roleid :: "json option"
  s_joinedreq :: "json option"
  s_joinedtime :: "json option"
  s_agereq :: "json option"
  s_agetime :: "json option"
  s_messagereq :: "json option"
  s_messageamount :: "json option"
  s_isdrop :: "json option"
  s_serverreq :: "json option"
  s_serverlink :: "json option"
  s_serverslist :: "json option"
  s_bypassrole :: "json option"
  s_giveawayMessageWinner :: "json option"
  s_winnerRole :: "json option"

fun truthy :: "json \<Rightarrow> bool" where
  "truthy JNull = False"
| "truthy (JBool b) = b"
| "truthy (JNum n) = (n \<noteq> 0)"
| "truthy (JStr s) = (s \<noteq> [])"
| "truthy (JArr xs) = True"

text \<open>The object \<open>start\<close> passes to \<open>new Giveaway\<close>, with the two readings of the clock
  that \<open>startAt: Date.now()\<close> and \<open>endAt: Date.now() + options.time\<close> take, and the
  time, the prize and the number of winners that passed the validation.\<close>

definition start_data :: "world \<Rightarrow> text_channel \<Rightarrow> start_options \<Rightarrow> int \<Rightarrow> int
    \<Rightarrow> int \<Rightarrow> string \<Rightarrow> int \<Rightarrow> giveaway_data" where
  "start_data w c opts now1 now2 t p n =
     \<lparr> o_messageID = None,
       o_channelID = channel_id c,
       o_guildID = guild_id c,
       o_startAt = now1,
       o_endAt = now2 + t,
       o_ended = False,
       o_winnerCount = n,
       o_prize = p,
       o_messages =
         (case s_messages opts of
            Some v \<Rightarrow> if truthy v then Some v else Some (defaultGiveawayMessages w)
          | None \<Rightarrow> Some (defaultGiveawayMessages w)),
       o_hostedBy =
         (case s_hostedBy opts of
            Some h \<Rightarrow> if h \<noteq> [] then Some h else None
          | None \<Rightarrow> None),
       o_embedColor = s_embedColor opts,
       o_embedColorEnd = s_embedColorEnd opts,
       o_botsCanWin = s_botsCanWin opts,
       o_exemptPermissions = s_exemptPermissions opts,
       o_exemptMembers = s_exemptMembers opts,
       o_reaction = s_reaction opts,
       o_rolereq = s_rolereq opts,
       o_roleid = s_roleid opts,
       o_joinedreq = s_joinedreq opts,
       o_joinedtime = s_joinedtime opts,
       o_agereq = s_agereq opts,
       o_agetime = s_agetime opts,
       o_messagereq = s_messagereq opts,
       o_messageamount = s_messageamount opts,
       o_isdrop = s_isdrop opts,
       o_serverreq = s_serverreq opts,
       o_serverlink = s_serverlink opts,
       o_serverslist = s_serverslist opts,
       o_bypassrole = s_bypassrole opts,
       o_threeSecondsRemaining = Some False,
       o_threeSecondsRemaining2 = Some False,
       o_giveawayMessageWinner = s_giveawayMessageWinner opts,
       o_winnerRole = s_winnerRole opts \<rparr>"

text \<open>\<open>start\<close>, after its validation: the giveaway is built (it holds no message yet,
  so its eligible set is empty and its winning chance is computed without an exception),
  the announcement is sent,
  the giveaway gets the identifier of the announcement, joins the collection and is
  saved, and \<open>_updateGiveaway\<close> runs on it. An exception inside the executor (the
  bypass roles read \<open>c\<close> too early, \<open>channel.send\<close> or \<open>_updateGiveaway\<close> fails) leaves
  the promise unsettled. The promise resolves with the giveaway, here its reference.\<close>

definition start_valid :: "world \<Rightarrow> manager \<Rightarrow> text_channel \<Rightarrow> start_options \<Rightarrow> int
    \<Rightarrow> string \<Rightarrow> int \<Rightarrow> nat promise \<times> manager" where
  "start_valid w m c opts t p n =
     (case Date_now w m of
        (now1, m1) \<Rightarrow>
          (case Date_now w m1 of
             (now2, m2) \<Rightarrow>
               let a = next_ref m2;
                   g = new_Giveaway (start_data w c opts now1 now2 t p n);
                   m3 = m2\<lparr>objects := (objects m2)(a \<mapsto> g), next_ref := Suc a\<rparr>
               in if is_array (bypassrole g) \<and> array_length (bypassrole g) > 1
                  then (Pending, m3)
                  else
                    (case send_result w of
                       None \<Rightarrow> (Pending, m3)
                     | Some mid \<Rightarrow>
                         (case updateGiveaway w
                                 (saveGiveaway
                                    (m3\<lparr>objects := (objects m3)(a \<mapsto> g\<lparr>messageID := Some mid\<rparr>),
                                        giveaways := giveaways m3 @ [a]\<rparr>))
                                 a of
                            (Resolved u, m4) \<Rightarrow> (Resolved a, m4)
                          | (_, m4) \<Rightarrow> (Pending, m4)))))"

text \<open>The validation of \<open>start\<close>: \<open>!x || isNaN(x)\<close> turns away a missing value, zero and
  \<open>NaN\<close>; \<open>!options.prize\<close> turns away a missing and an empty prize.\<close>

definition start :: "world \<Rightarrow> manager \<Rightarrow> text_channel option \<Rightarrow> start_options
    \<Rightarrow> nat promise \<times> manager" where
  "start w m chan opts =
     (if \<not> ready m then (Rejected NotReady, m)
      else
        (case chan of
           None \<Rightarrow> (Rejected InvalidChannel, m)
         | Some c \<Rightarrow>
             if channel_id c = [] then (Rejected InvalidChannel, m)
             else
               (case time opts of
                  None \<Rightarrow> (Rejected InvalidTime, m)
                | Some NaN \<Rightarrow> (Rejected InvalidTime, m)
                | Some (Num t) \<Rightarrow>
                    if t = 0 then (Rejected InvalidTime, m)
                    else
                      (case s_prize opts of
                         None \<Rightarrow> (Rejected InvalidPrize, m)
                       | Some p \<Rightarrow>
                           if p = [] then (Rejected InvalidPrize, m)
                           else
                             (case s_winnerCount opts of
                                None \<Rightarrow> (Rejected InvalidWinnerCount, m)
                              | Some NaN \<Rightarrow> (Rejected InvalidWinnerCount, m)
                              | Some (Num n) \<Rightarrow>
                                  if n = 0 then (Rejected InvalidWinnerCount, m)
                                  else start_valid w m c opts t p n)))))"

section \<open>The records of the storage file\<close>

text \<open>A record as the manager writes it: the properties of \<open>data\<close>, none of them a
  function.\<close>

definition persisted :: "giveaway_data \<Rightarrow> bool" where
  "persisted d =
     ((case o_exemptMembers d of None \<Rightarrow> True | Some f \<Rightarrow> False)
      \<and> o_threeSecondsRemaining d = None
      \<and> o_threeSecondsRemaining2 d = None
      \<and> o_giveawayMessageWinner d = None
      \<and> o_winnerRole d = None)"

section \<open>A giveaway to compute with\<close>

text \<open>A guild of four members and a bot, one of the members an administrator; an
  announcement \<open>m1\<close> that the client itself, four users and a bot have reacted to, one
  of the users (\<open>dave\<close>) having left the guild since; and a second announcement \<open>m2\<close>,
  the one \<open>channel.send\<close> posts next.\<close>

definition alice :: user where "alice = \<lparr>uid = ''u1'', bot = False\<rparr>"
definition bob :: user where "bob = \<lparr>uid = ''u2'', bot = False\<rparr>"
definition carol :: user where "carol = \<lparr>uid = ''u3'', bot = False\<rparr>"
definition dave :: user where "dave = \<lparr>uid = ''u4'', bot = False\<rparr>"
definition robot :: user where "robot = \<lparr>uid = ''u5'', bot = True\<rparr>"
definition self_user :: user where "self_user = \<lparr>uid = ''u0'', bot = True\<rparr>"

definition ex_guild :: guild where
  "ex_guild =
     map_of [(''u0'', []), (''u1'', []), (''u2'', []), (''u3'', [''ADMINISTRATOR'']),
             (''u5'', [])]"

definition ex_message :: message where
  "ex_message =
     \<lparr>message_id = ''m1'',
      reactions = [\<lparr>reaction_key = ''tada'', emoji_name = ''tada'',
                    reaction_users = [self_user, alice, bob, carol, dave, robot]\<rparr>],
      client_user_id = ''u0''\<rparr>"

definition ex_channel :: text_channel where
  "ex_channel =
     \<lparr>channel_id = ''c1'', guild_id = ''g1'', channel_guild = ex_guild,
      channel_messages =
        map_of [(''m1'', ex_message),
                (''m2'', \<lparr>message_id = ''m2'', reactions = [], client_user_id = ''u0''\<rparr>)]\<rparr>"

definition ex_world :: world where
  "ex_world =
     \<lparr>channels = map_of [(''c1'', ex_channel)],
      clock = (\<lambda>n. 1000 + int n),
      random_values = [7, 1, 4],
      fetchInvite = (\<lambda>l. None),
      send_result = Some ''m2'',
      defaultGiveawayMessages = JNull\<rparr>"

text \<open>The same world after the announcement has been deleted.\<close>

definition gone_world :: world where
  "gone_world =
     ex_world\<lparr>channels := map_of [(''c1'', ex_channel\<lparr>channel_messages := (\<lambda>i. None)\<rparr>)]\<rparr>"

definition ex_data :: giveaway_data where
  "ex_data =
     \<lparr> o_messageID = Some ''m1'', o_channelID = ''c1'', o_guildID = ''g1'',
       o_startAt = 1000, o_endAt = 11000, o_ended = False, o_winnerCount = 2,
       o_prize = ''Key'', o_messages = Some JNull, o_hostedBy = None,
       o_embedColor = None, o_embedColorEnd = None, o_botsCanWin = None,
       o_exemptPermissions = Some [''ADMINISTRATOR''], o_exemptMembers = None,
       o_reaction = Some ''tada'', o_rolereq = None, o_roleid = None, o_joinedreq = None,
       o_joinedtime = None, o_agereq = None, o_agetime = None, o_messagereq = None,
       o_messageamount = None, o_isdrop = None, o_serverreq = None, o_serverlink = None,
       o_serverslist = None, o_bypassrole = None, o_threeSecondsRemaining = None,
       o_threeSecondsRemaining2 = None, o_giveawayMessageWinner = None,
       o_winnerRole = None \<rparr>"

text \<open>A manager that holds the one giveaway \<open>g\<close>.\<close>

definition ex_manager :: "giveaway \<Rightarrow> manager" where
  "ex_manager g =
     \<lparr>ready = True, giveaways = [0], objects = (\<lambda>a. if a = 0 then Some g else None),
      next_ref = 1, storage = Records [stringify (data g)],
      default_botsCanWin = False, default_exemptPermissions = [],
      default_exemptMembers = None, default_reaction = ''gift'',
      updateCountdownEvery = 5000, clock_reads = 0\<rparr>"

text \<open>A manager as its constructor leaves it, before \<open>_init\<close> has read the storage
  file.\<close>

definition new_manager :: "storage_file \<Rightarrow> manager" where
  "new_manager file =
     \<lparr>ready = False, giveaways = [], objects = (\<lambda>a. None),
      next_ref = 0, storage = file,
      default_botsCanWin = False, default_exemptPermissions = [],
      default_exemptMembers = None, default_reaction = ''gift'',
      updateCountdownEvery = 5000, clock_reads = 0\<rparr>"

definition ex_start_options :: "int \<Rightarrow> int \<Rightarrow> start_options" where
  "ex_start_options t n =
     \<lparr> time = Some (Num t), s_prize = Some ''Key'', s_winnerCount = Some (Num n),
       s_hostedBy = None, s_messages = None, s_reaction = Some ''tada'',
       s_botsCanWin = None, s_exemptPermissions = None, s_exemptMembers = None,
       s_embedColor = None, s_embedColorEnd = None, s_rolereq = None, s_roleid = None,
       s_joinedreq = None, s_joinedtime = None, s_agereq = None, s_agetime = None,
       s_messagereq = None, s_messageamount = None, s_isdrop = None, s_serverreq = None,
       s_serverlink = None, s_serverslist = None, s_bypassrole = None,
       s_giveawayMessageWinner = None, s_winnerRole = None \<rparr>"

section \<open>The fields the scheduler never writes\<close>

definition agreed :: "giveaway \<Rightarrow> int \<times> int \<times> int" where
  "agreed g = (startAt g, endAt g, winnerCount g)"

section \<open>What the storage functions leave alone\<close>

lemma objects_write_storage: "objects (write_storage m) = objects m"
  by (simp add: write_storage_def)

lemma objects_editGiveaway: "objects (editGiveaway m) = objects m"
  by (simp add: editGiveaway_def write_storage_def)

lemma objects_deleteGiveaway: "objects (deleteGiveaway m) = objects m"
  by (simp add: deleteGiveaway_def write_storage_def)

lemma objects_saveGiveaway: "objects (saveGiveaway m) = objects m"
  by (simp add: saveGiveaway_def write_storage_def)

section \<open>Ending a giveaway\<close>

text \<open>C4. A call of \<open>end\<close> on a giveaway that has already ended rejects with the
  already-ended error, and the whole state of the manager (the giveaway, the collection,
  the storage file) is as it was before the call.\<close>

theorem end_already_ended:
  assumes "objects m a = Some g" and "ended g"
  shows "end_giveaway w m a = (Rejected (AlreadyEnded (messageID g)), m)"
  using assms by (simp add: end_giveaway_def)

theorem end_already_ended_witness:
  "objects (ex_manager (new_Giveaway (ex_data\<lparr>o_ended := True\<rparr>))) 0
     = Some (new_Giveaway (ex_data\<lparr>o_ended := True\<rparr>))
   \<and> ended (new_Giveaway (ex_data\<lparr>o_ended := True\<rparr>))
   \<and> end_giveaway ex_world (ex_manager (new_Giveaway (ex_data\<lparr>o_ended := True\<rparr>))) 0
     = (Rejected (AlreadyEnded (Some ''m1'')),
        ex_manager (new_Giveaway (ex_data\<lparr>o_ended := True\<rparr>)))"
  using end_already_ended [of "ex_manager (new_Giveaway (ex_data\<lparr>o_ended := True\<rparr>))" 0
      "new_Giveaway (ex_data\<lparr>o_ended := True\<rparr>)" ex_world]
  by (simp add: ex_manager_def new_Giveaway_def ex_data_def)

lemma fetchMessage_unfetchable:
  assumes "objects m a = Some g" and "messageID g = Some mid" and "mid \<noteq> []"
    and "channel w g = Some ch" and "channel_messages ch mid = None"
  shows "fetchMessage w m a =
    (Rejected (FetchFailed (Some mid)),
     deleteGiveaway (m\<lparr>giveaways :=
        filter (\<lambda>b. map_option messageID (objects m b) \<noteq> Some (Some mid)) (giveaways m)\<rparr>))"
  using assms by (simp add: fetchMessage_def)

text \<open>The failing call of \<open>end\<close> is not atomic. When \<open>end\<close> is called on a giveaway
  that has not ended, whose channel is known, that holds no message from an earlier
  fetch and whose announcement cannot be fetched, the call rejects with the fetch error;
  the giveaway has \<open>ended\<close> set, it is no longer in the collection (nor is any giveaway
  with the same message identifier), and the storage file has been rewritten without
  it.\<close>

lemma end_unfetchable:
  assumes "objects m a = Some g" and "\<not> ended g" and "message g = None"
    and "messageID g = Some mid" and "mid \<noteq> []"
    and "channel w g = Some ch" and "channel_messages ch mid = None"
  shows "fst (end_giveaway w m a) = Rejected (FetchFailed (Some mid))
    \<and> objects (snd (end_giveaway w m a)) a = Some (g\<lparr>ended := True\<rparr>)
    \<and> giveaways (snd (end_giveaway w m a))
        = filter (\<lambda>b. b \<noteq> a \<and> map_option messageID (objects m b) \<noteq> Some (Some mid))
            (giveaways m)
    \<and> storage (snd (end_giveaway w m a))
        = Records (List.map_filter (\<lambda>b. map_option (\<lambda>g. stringify (data g)) (objects m b))
            (filter (\<lambda>b. b \<noteq> a \<and> map_option messageID (objects m b) \<noteq> Some (Some mid))
               (giveaways m)))"
proof -
  let ?g1 = "g\<lparr>ended := True\<rparr>"
  let ?m0 = "m\<lparr>objects := (objects m)(a \<mapsto> ?g1)\<rparr>"
  let ?keep = "\<lambda>b. b \<noteq> a \<and> map_option messageID (objects m b) \<noteq> Some (Some mid)"
  have flt: "filter (\<lambda>b. map_option messageID (objects ?m0 b) \<noteq> Some (Some mid)) xs
      = filter ?keep xs" for xs
    using assms(4) by (intro filter_cong) auto
  have mf: "List.map_filter (\<lambda>b. map_option (\<lambda>g. stringify (data g)) (objects ?m0 b))
              (filter ?keep xs)
      = List.map_filter (\<lambda>b. map_option (\<lambda>g. stringify (data g)) (objects m b))
              (filter ?keep xs)" for xs
    by (induction xs) (auto simp: List.map_filter_simps split: option.splits)
  let ?m1 = "deleteGiveaway (?m0\<lparr>giveaways := filter ?keep (giveaways m)\<rparr>)"
  have "fetchMessage w ?m0 a = (Rejected (FetchFailed (Some mid)),
      deleteGiveaway (?m0\<lparr>giveaways :=
        filter (\<lambda>b. map_option messageID (objects ?m0 b) \<noteq> Some (Some mid)) (giveaways ?m0)\<rparr>))"
    by (rule fetchMessage_unfetchable[where g = ?g1 and ch = ch])
       (use assms in \<open>simp_all add: channel_def\<close>)
  then have fm: "fetchMessage w ?m0 a = (Rejected (FetchFailed (Some mid)), ?m1)"
    by (simp only: flt) simp
  have obj: "objects ?m1 a = Some ?g1"
    by (simp add: objects_deleteGiveaway)
  have e: "end_giveaway w m a = (Rejected (FetchFailed (Some mid)), ?m1)"
    using assms(1,2,3,4,6)
    by (simp add: end_giveaway_def fm objects_deleteGiveaway)
  have gs: "giveaways ?m1 = filter ?keep (giveaways m)"
    by (simp add: deleteGiveaway_def write_storage_def)
  have st: "storage ?m1 = Records (List.map_filter
      (\<lambda>b. map_option (\<lambda>g. stringify (data g)) (objects ?m0 b)) (filter ?keep (giveaways m)))"
    by (simp add: deleteGiveaway_def write_storage_def)
  show ?thesis
    unfolding e fst_conv snd_conv
    using obj gs st[unfolded mf] by blast
qed

lemma end_unfetchable_example:
  "fst (end_giveaway gone_world (ex_manager (new_Giveaway ex_data)) 0)
     = Rejected (FetchFailed (Some ''m1''))
   \<and> map_option ended
       (objects (snd (end_giveaway gone_world (ex_manager (new_Giveaway ex_data)) 0)) 0)
     = Some True
   \<and> giveaways (snd (end_giveaway gone_world (ex_manager (new_Giveaway ex_data)) 0)) = []
   \<and> storage (snd (end_giveaway gone_world (ex_manager (new_Giveaway ex_data)) 0))
     = Records []"
  using end_unfetchable [of "ex_manager (new_Giveaway ex_data)" 0 "new_Giveaway ex_data"
      "''m1''" gone_world "ex_channel\<lparr>channel_messages := (\<lambda>i. None)\<rparr>"]
  by (simp add: ex_manager_def new_Giveaway_def ex_data_def gone_world_def channel_def
      ex_world_def List.map_filter_simps)

text \<open>C10, evaluated. \<open>end\<close> is to reject when the announcement cannot be fetched
  (\<open>if (!this.message) return reject('Unable to fetch message ...')\<close>). For a giveaway
  that still holds the message of an earlier fetch it does not: the fetch fails and
  prunes the giveaway, which has \<open>ended\<close> set by then, but \<open>end\<close> tests the field
  \<open>message\<close>, finds the old message there, and goes on to draw winners and to
  resolve with them.\<close>

theorem end_stale_message_resolves:
  "\<not> ended ((new_Giveaway ex_data)\<lparr>message := Some ex_message\<rparr>)
   \<and> fst (fetchMessage gone_world
            (ex_manager ((new_Giveaway ex_data)\<lparr>message := Some ex_message\<rparr>)) 0)
     = Rejected (FetchFailed (Some ''m1''))
   \<and> fst (end_giveaway gone_world
            (ex_manager ((new_Giveaway ex_data)\<lparr>message := Some ex_message\<rparr>)) 0)
     = Resolved (Some [Some \<lparr>member_id = ''u2'', permissions = []\<rparr>,
                       Some \<lparr>member_id = ''u1'', permissions = []\<rparr>])
   \<and> map_option ended
        (objects (snd (end_giveaway gone_world
            (ex_manager ((new_Giveaway ex_data)\<lparr>message := Some ex_message\<rparr>)) 0)) 0)
     = Some True
   \<and> giveaways (snd (end_giveaway gone_world
            (ex_manager ((new_Giveaway ex_data)\<lparr>message := Some ex_message\<rparr>)) 0)) = []"
  by code_simp

section \<open>The eligible set\<close>

text \<open>The loop of exemptions and the filters around it only take users away: what
  reaches the draw is a selection of the reactors, none of them the client itself, all of
  them members of the guild.\<close>

lemma exempt_loop_filter:
  "exempt_loop ex gd xs users = Inr users' \<Longrightarrow> \<exists>P. users' = filter P users"
proof (induction xs arbitrary: users)
  case Nil
  then have "users' = filter (\<lambda>u. True) users" by simp
  then show ?case by blast
next
  case (Cons u us)
  from Cons.prems obtain mem b where
    mem: "guild_member gd (uid u) = Some mem" and b: "ex mem = Inr b"
    and rest: "exempt_loop ex gd us (if b then filter (\<lambda>v. uid v \<noteq> uid u) users else users)
                 = Inr users'"
    by (auto split: option.splits sum.splits)
  from Cons.IH[OF rest] obtain P where
    P: "users' = filter P (if b then filter (\<lambda>v. uid v \<noteq> uid u) users else users)"
    by blast
  show ?case
  proof (cases b)
    case True
    with P have "users' = filter (\<lambda>v. uid v \<noteq> uid u \<and> P v) users" by simp
    then show ?thesis by blast
  next
    case False
    with P show ?thesis by auto
  qed
qed

lemma candidates_filter:
  assumes "candidates m g msg gd reactors = Inr us"
  shows "\<exists>R. us = filter R reactors
           \<and> (\<forall>u. R u \<longrightarrow> uid u \<noteq> client_user_id msg \<and> guild_member gd (uid u) \<noteq> None)"
proof -
  let ?users = "filter (\<lambda>u. guild_member gd (uid u) \<noteq> None)
                    (filter (\<lambda>u. uid u \<noteq> client_user_id msg)
                       (filter (\<lambda>u. bot u = botsCanWin m g) reactors))"
  from assms obtain users' where
    loop: "exempt_loop (exemptMembers m g) gd ?users ?users = Inr users'"
    and us: "us = filter (\<lambda>u. \<not> list_ex (\<lambda>p. case guild_member gd (uid u) of
                                                  None \<Rightarrow> False
                                                | Some mem \<Rightarrow> hasPermission mem p)
                                  (exemptPermissions m g)) users'"
    by (auto simp: candidates_def Let_def split: sum.splits)
  from exempt_loop_filter[OF loop] obtain P where P: "users' = filter P ?users" by blast
  let ?R = "\<lambda>u. bot u = botsCanWin m g \<and> uid u \<noteq> client_user_id msg
              \<and> guild_member gd (uid u) \<noteq> None \<and> P u
              \<and> \<not> list_ex (\<lambda>p. case guild_member gd (uid u) of
                                                  None \<Rightarrow> False
                                                | Some mem \<Rightarrow> hasPermission mem p)
                                  (exemptPermissions m g)"
  have "us = filter ?R reactors"
    unfolding us P by (simp add: conj_commute conj_left_commute cong: conj_cong)
  then show ?thesis by blast
qed

lemma length_filter_mono:
  "(\<And>x. P x \<Longrightarrow> Q x) \<Longrightarrow> length (filter P xs) \<le> length (filter Q xs)"
  by (induction xs) auto

section \<open>Counting the entries\<close>

text \<open>For a giveaway that holds its message and whose channel is known, when the
  message carries the configured reaction, \<open>ValidEntry\<close> returns the number of users
  who reacted, the client itself left out and no other filter applied; this number is at
  least the size of the eligible set that winner selection draws from.\<close>

lemma ValidEntry_counts_reactors:
  assumes "message g = Some msg" and "find_reaction msg (reaction m g) = Some r"
    and "channel w g = Some ch"
  shows "ValidEntry w m g
           = Inr (Size (length (filter (\<lambda>u. uid u \<noteq> client_user_id msg) (reaction_users r))))
    \<and> (\<forall>us. eligible w m g = Inr us \<longrightarrow>
          length us \<le> length (filter (\<lambda>u. uid u \<noteq> client_user_id msg) (reaction_users r)))"
proof (intro conjI allI impI)
  show "ValidEntry w m g
           = Inr (Size (length (filter (\<lambda>u. uid u \<noteq> client_user_id msg) (reaction_users r))))"
    using assms by (simp add: ValidEntry_def)
next
  fix us assume "eligible w m g = Inr us"
  with assms have "candidates m g msg (channel_guild ch) (reaction_users r) = Inr us"
    by (simp add: eligible_def)
  from candidates_filter[OF this] obtain R where
    "us = filter R (reaction_users r)" and "\<And>u. R u \<Longrightarrow> uid u \<noteq> client_user_id msg"
    by blast
  then show "length us \<le> length (filter (\<lambda>u. uid u \<noteq> client_user_id msg) (reaction_users r))"
    by (simp add: length_filter_mono)
qed

lemma ValidEntry_counts_reactors_example:
  "message ((new_Giveaway ex_data)\<lparr>message := Some ex_message\<rparr>) = Some ex_message
   \<and> channel ex_world ((new_Giveaway ex_data)\<lparr>message := Some ex_message\<rparr>) = Some ex_channel
   \<and> ValidEntry ex_world (ex_manager (new_Giveaway ex_data))
       ((new_Giveaway ex_data)\<lparr>message := Some ex_message\<rparr>) = Inr (Size 5)
   \<and> eligible ex_world (ex_manager (new_Giveaway ex_data))
       ((new_Giveaway ex_data)\<lparr>message := Some ex_message\<rparr>) = Inr [alice, bob]
   \<and> length [alice, bob] \<le> (5::nat)"
proof -
  let ?g = "(new_Giveaway ex_data)\<lparr>message := Some ex_message\<rparr>"
  let ?m = "ex_manager (new_Giveaway ex_data)"
  let ?r = "\<lparr>reaction_key = ''tada'', emoji_name = ''tada'',
             reaction_users = [self_user, alice, bob, carol, dave, robot]\<rparr>"
  have h1: "message ?g = Some ex_message" by simp
  have h2: "find_reaction ex_message (reaction ?m ?g) = Some ?r" by code_simp
  have h3: "channel ex_world ?g = Some ex_channel"
    by (simp add: channel_def ex_world_def new_Giveaway_def ex_data_def)
  have n: "length (filter (\<lambda>u. uid u \<noteq> client_user_id ex_message) (reaction_users ?r)) = 5"
    by code_simp
  have e: "eligible ex_world ?m ?g = Inr [alice, bob]" by code_simp
  from ValidEntry_counts_reactors [OF h1 h2 h3] n e
  have "ValidEntry ex_world ?m ?g = Inr (Size 5)" and "length [alice, bob] \<le> (5::nat)"
    by auto
  with h1 h3 e show ?thesis by blast
qed

text \<open>C7, evaluated. \<open>ValidEntry\<close> is to return a number: its last statement returns the
  \<open>size\<close> of the filtered users, which is zero when the client alone has reacted. For a
  fetched message that does not carry the configured reaction it returns an empty array
  instead (\<open>if (!reaction) return new Discord.Collection().array()\<close>, the early return
  of \<open>roll\<close>).\<close>

theorem ValidEntry_no_reaction_returns_array:
  "message ((new_Giveaway (ex_data\<lparr>o_reaction := None\<rparr>))\<lparr>message := Some ex_message\<rparr>)
     = Some ex_message
   \<and> ValidEntry ex_world (ex_manager (new_Giveaway ex_data))
       ((new_Giveaway (ex_data\<lparr>o_reaction := None\<rparr>))\<lparr>message := Some ex_message\<rparr>)
     = Inr EmptyArray
   \<and> ValidEntry ex_world (ex_manager (new_Giveaway ex_data))
       ((new_Giveaway ex_data)
          \<lparr>message := Some (ex_message
             \<lparr>reactions := [\<lparr>reaction_key = ''tada'', emoji_name = ''tada'',
                              reaction_users = [self_user]\<rparr>]\<rparr>)\<rparr>)
     = Inr (Size 0)"
  by code_simp

section \<open>Drawing the winners\<close>

lemma splice_draws_length:
  "length (List.map_filter id (splice_draws rs n arr)) = min n (length arr)"
proof (induction n arbitrary: rs arr)
  case 0
  then show ?case by (simp add: List.map_filter_simps)
next
  case (Suc n)
  show ?case
  proof (cases "arr = []")
    case True
    with Suc[of rs "[]"] show ?thesis by (simp add: List.map_filter_simps)
  next
    case False
    define i where "i = (case rs of [] \<Rightarrow> 0 | r # _ \<Rightarrow> r mod length arr)"
    have i: "i < length arr" using False by (auto simp: i_def split: list.splits)
    have "length (take i arr @ drop (Suc i) arr) = length arr - 1" using i by auto
    with Suc[of "tl rs" "take i arr @ drop (Suc i) arr"] False i show ?thesis
      by (simp add: List.map_filter_simps Let_def i_def[symmetric])
  qed
qed

lemma splice_draws_distinct:
  "distinct arr \<Longrightarrow>
   distinct (List.map_filter id (splice_draws rs n arr))
   \<and> set (List.map_filter id (splice_draws rs n arr)) \<subseteq> set arr"
proof (induction n arbitrary: rs arr)
  case 0
  then show ?case by (simp add: List.map_filter_simps)
next
  case (Suc n)
  show ?case
  proof (cases "arr = []")
    case True
    with Suc.IH[of "[]" rs] show ?thesis by (simp add: List.map_filter_simps)
  next
    case False
    define i where "i = (case rs of [] \<Rightarrow> 0 | r # _ \<Rightarrow> r mod length arr)"
    have i: "i < length arr" using False by (auto simp: i_def split: list.splits)
    let ?rest = "take i arr @ drop (Suc i) arr"
    have arr: "arr = take i arr @ arr ! i # drop (Suc i) arr"
      using i by (simp add: id_take_nth_drop)
    have "distinct (take i arr @ arr ! i # drop (Suc i) arr)"
      using Suc.prems arr by metis
    then have d: "distinct ?rest" and notin: "arr ! i \<notin> set ?rest"
      by auto
    have sub: "set ?rest \<subseteq> set arr"
      by (auto dest: in_set_takeD in_set_dropD)
    have mem: "arr ! i \<in> set arr"
      using i by simp
    from Suc.IH[OF d, of "tl rs"] notin sub mem False show ?thesis
      by (auto simp: List.map_filter_simps Let_def i_def[symmetric])
  qed
qed

lemma splice_draws_set:
  "set (List.map_filter id (splice_draws rs n arr)) \<subseteq> set arr"
proof (induction n arbitrary: rs arr)
  case 0
  then show ?case by (simp add: List.map_filter_simps)
next
  case (Suc n)
  show ?case
  proof (cases "arr = []")
    case True
    with Suc[of rs "[]"] show ?thesis by (simp add: List.map_filter_simps)
  next
    case False
    define i where "i = (case rs of [] \<Rightarrow> 0 | r # _ \<Rightarrow> r mod length arr)"
    have i: "i < length arr" using False by (auto simp: i_def split: list.splits)
    have sub: "set (take i arr @ drop (Suc i) arr) \<subseteq> set arr"
      by (auto dest: in_set_takeD in_set_dropD)
    have mem: "arr ! i \<in> set arr"
      using i by simp
    from Suc[of "tl rs" "take i arr @ drop (Suc i) arr"] sub mem False show ?thesis
      by (auto simp: List.map_filter_simps Let_def i_def[symmetric])
  qed
qed

lemma collection_random_set:
  "set (List.map_filter id (collection_random rs k arr)) \<subseteq> set arr"
  by (simp add: collection_random_def splice_draws_set List.map_filter_simps)

lemma collection_random_length:
  "length (List.map_filter id (collection_random rs k arr)) = min (nat k) (length arr)"
  by (simp add: collection_random_def splice_draws_length List.map_filter_simps)

lemma collection_random_distinct:
  "distinct arr \<Longrightarrow>
   distinct (List.map_filter id (collection_random rs k arr))
   \<and> set (List.map_filter id (collection_random rs k arr)) \<subseteq> set arr"
  by (simp add: collection_random_def splice_draws_distinct List.map_filter_simps)

lemma guild_member_inj:
  "guild_member gd i = Some x \<Longrightarrow> guild_member gd j = Some x \<Longrightarrow> i = j"
  by (auto simp: guild_member_def)

lemma guild_member_id:
  "guild_member gd i = Some x \<Longrightarrow> member_id x = i"
  by (auto simp: guild_member_def)

lemma roll_eligible_error:
  "eligible w m g = Inl e \<Longrightarrow> roll w m g n = Inl e"
  by (auto simp: eligible_def roll_def split: option.splits sum.splits)

lemma roll_from_eligible:
  assumes el: "eligible w m g = Inr us"
  shows "\<exists>gd. roll w m g n
             = Inr (map (\<lambda>u. guild_member gd (uid u))
                      (List.map_filter id
                         (collection_random (random_values w) (requested g n) us)))
           \<and> (\<forall>u \<in> set us. guild_member gd (uid u) \<noteq> None)"
proof (cases "\<exists>msg r ch. message g = Some msg \<and> find_reaction msg (reaction m g) = Some r
                 \<and> channel w g = Some ch")
  case False
  with el have "us = []" and "roll w m g n = Inr []"
    by (auto simp: eligible_def roll_def split: option.splits)
  then show ?thesis by (simp add: collection_random_def List.map_filter_simps)
next
  case True
  then obtain msg r ch where msg: "message g = Some msg"
    and r: "find_reaction msg (reaction m g) = Some r" and ch: "channel w g = Some ch"
    by blast
  from el msg r ch have c: "candidates m g msg (channel_guild ch) (reaction_users r) = Inr us"
    by (simp add: eligible_def)
  from candidates_filter[OF c] have "\<forall>u \<in> set us. guild_member (channel_guild ch) (uid u) \<noteq> None"
    by auto
  moreover have "roll w m g n
      = Inr (map (\<lambda>u. guild_member (channel_guild ch) (uid u))
               (List.map_filter id (collection_random (random_values w) (requested g n) us)))"
    using msg r ch c by (simp add: roll_def)
  ultimately show ?thesis by blast
qed

lemma eligible_distinct:
  assumes el: "eligible w m g = Inr us"
    and keys: "\<forall>msg r. message g = Some msg \<longrightarrow> find_reaction msg (reaction m g) = Some r
                 \<longrightarrow> distinct (map uid (reaction_users r))"
  shows "distinct (map uid us)"
proof (cases "\<exists>msg r ch. message g = Some msg \<and> find_reaction msg (reaction m g) = Some r
                 \<and> channel w g = Some ch")
  case False
  with el have "us = []"
    by (auto simp: eligible_def split: option.splits)
  then show ?thesis by simp
next
  case True
  then obtain msg r ch where msg: "message g = Some msg"
    and r: "find_reaction msg (reaction m g) = Some r" and ch: "channel w g = Some ch"
    by blast
  from el msg r ch have c: "candidates m g msg (channel_guild ch) (reaction_users r) = Inr us"
    by (simp add: eligible_def)
  from candidates_filter[OF c] obtain R where us: "us = filter R (reaction_users r)"
    by blast
  from keys msg r have "distinct (map uid (reaction_users r))" by blast
  then show ?thesis unfolding us by (rule distinct_map_filter)
qed

text \<open>C2. Whenever the eligible set can be computed, \<open>roll\<close> returns without an
  error, also when fewer candidates remain than winners are asked for. With \<open>k\<close> the
  number of winners asked for (\<open>winnerCount || this.winnerCount\<close>), it returns exactly
  \<open>min k (size of the eligible set)\<close> members, never more than \<open>k\<close>, each of them a
  member (no \<open>null\<close>) that belongs to an eligible user, and none of them twice. The
  users of a reaction form a collection keyed by their identifiers, so these are
  distinct.\<close>

theorem roll_draws_without_replacement:
  assumes el: "eligible w m g = Inr us"
    and keys: "\<forall>msg r. message g = Some msg \<longrightarrow> find_reaction msg (reaction m g) = Some r
                 \<longrightarrow> distinct (map uid (reaction_users r))"
  shows "\<exists>ws. roll w m g n = Inr ws
           \<and> length ws = min (nat (requested g n)) (length us)
           \<and> length ws \<le> nat (requested g n)
           \<and> distinct ws
           \<and> None \<notin> set ws
           \<and> (\<forall>x. Some x \<in> set ws \<longrightarrow> member_id x \<in> uid ` set us)"
proof -
  let ?drawn = "List.map_filter id (collection_random (random_values w) (requested g n) us)"
  from roll_from_eligible[OF el, of n] obtain gd where
    roll: "roll w m g n = Inr (map (\<lambda>u. guild_member gd (uid u)) ?drawn)"
    and R: "\<And>u. u \<in> set us \<Longrightarrow> guild_member gd (uid u) \<noteq> None"
    by blast
  let ?ws = "map (\<lambda>u. guild_member gd (uid u)) ?drawn"
  from eligible_distinct[OF el keys] have dus: "distinct us" and inj: "inj_on uid (set us)"
    by (simp_all add: distinct_map)
  have len: "length ?ws = min (nat (requested g n)) (length us)"
    by (simp add: collection_random_length)
  have dd: "distinct ?drawn" using dus by (simp add: collection_random_distinct)
  have sub: "set ?drawn \<subseteq> set us" by (rule collection_random_set)
  have members: "\<And>u. u \<in> set ?drawn \<Longrightarrow> guild_member gd (uid u) \<noteq> None"
    using sub R by auto
  have "inj_on (\<lambda>u. guild_member gd (uid u)) (set ?drawn)"
  proof (rule inj_onI)
    fix u v assume u: "u \<in> set ?drawn" and v: "v \<in> set ?drawn"
      and eq: "guild_member gd (uid u) = guild_member gd (uid v)"
    from members[OF u] obtain x where x: "guild_member gd (uid u) = Some x" by auto
    with eq have "guild_member gd (uid v) = Some x" by simp
    with x have "uid u = uid v" by (rule guild_member_inj)
    with inj u v sub show "u = v" by (auto dest: inj_onD)
  qed
  with dd have dws: "distinct ?ws" by (simp add: distinct_map)
  have none: "None \<notin> set ?ws"
  proof
    assume "None \<in> set ?ws"
    then obtain u where "u \<in> set ?drawn" and "guild_member gd (uid u) = None" by auto
    with members show False by blast
  qed
  have ids: "\<forall>x. Some x \<in> set ?ws \<longrightarrow> member_id x \<in> uid ` set us"
  proof (intro allI impI)
    fix x assume "Some x \<in> set ?ws"
    then obtain u where u: "u \<in> set ?drawn" and "guild_member gd (uid u) = Some x" by auto
    then have "member_id x = uid u" by (simp add: guild_member_id)
    with u sub show "member_id x \<in> uid ` set us" by auto
  qed
  from roll len dws none ids show ?thesis by simp
qed

theorem roll_draws_without_replacement_witness:
  "eligible ex_world (ex_manager (new_Giveaway ex_data))
       ((new_Giveaway ex_data)\<lparr>message := Some ex_message\<rparr>) = Inr [alice, bob]
   \<and> roll ex_world (ex_manager (new_Giveaway ex_data))
       ((new_Giveaway ex_data)\<lparr>message := Some ex_message\<rparr>) (Some 5)
     = Inr [Some \<lparr>member_id = ''u2'', permissions = []\<rparr>,
            Some \<lparr>member_id = ''u1'', permissions = []\<rparr>]
   \<and> length [Some \<lparr>member_id = ''u2'', permissions = []\<rparr>,
              Some \<lparr>member_id = ''u1'', permissions = []\<rparr>]
     = min (nat 5) (length [alice, bob])
   \<and> distinct [Some \<lparr>member_id = ''u2'', permissions = []\<rparr>,
                Some \<lparr>member_id = ''u1'', permissions = []\<rparr>]"
proof -
  let ?g = "(new_Giveaway ex_data)\<lparr>message := Some ex_message\<rparr>"
  let ?m = "ex_manager (new_Giveaway ex_data)"
  let ?r = "\<lparr>reaction_key = ''tada'', emoji_name = ''tada'',
             reaction_users = [self_user, alice, bob, carol, dave, robot]\<rparr>"
  have el: "eligible ex_world ?m ?g = Inr [alice, bob]" by code_simp
  have h2: "find_reaction ex_message (reaction ?m ?g) = Some ?r" by code_simp
  have d: "distinct (map uid (reaction_users ?r))" by code_simp
  have keys: "\<forall>msg r. message ?g = Some msg \<longrightarrow> find_reaction msg (reaction ?m ?g) = Some r
                 \<longrightarrow> distinct (map uid (reaction_users r))"
    using h2 d by auto
  have req: "requested ?g (Some 5) = 5" by (simp add: requested_def)
  have roll: "roll ex_world ?m ?g (Some 5)
     = Inr [Some \<lparr>member_id = ''u2'', permissions = []\<rparr>,
            Some \<lparr>member_id = ''u1'', permissions = []\<rparr>]" by code_simp
  from roll_draws_without_replacement [OF el keys, of "Some 5"]
  obtain ws where w1: "roll ex_world ?m ?g (Some 5) = Inr ws"
    and w2: "length ws = min (nat (requested ?g (Some 5))) (length [alice, bob])"
    and w3: "distinct ws"
    by blast
  from w1 roll have "ws = [Some \<lparr>member_id = ''u2'', permissions = []\<rparr>,
            Some \<lparr>member_id = ''u1'', permissions = []\<rparr>]"
    by simp
  with w2 w3 req el roll show ?thesis by simp
qed

text \<open>C3. The winning chance, asked of the giveaway or through the manager, is
  \<open>min(1, winnerCount / max(1, eligibleCount))\<close>, where
  \<open>eligibleCount\<close> is the size of the eligible set; \<open>roll\<close>, called as \<open>end\<close> calls
  it, draws from the same set: its winners are \<open>min(winnerCount, eligibleCount)\<close> users
  of that set, so that for a non-empty set the chance is the share of the eligible users
  who win.\<close>

theorem winningChance_of_eligible:
  assumes el: "eligible w m g = Inr us"
    and found: "find_giveaway m mid = Some a" and obj: "objects m a = Some g"
  shows "Manager_winningChance w m mid
           = Resolved (min 1 (rat_of_int (winnerCount g) / rat_of_nat (max 1 (length us))))
    \<and> winningChance w m g
           = Inr (min 1 (rat_of_int (winnerCount g) / rat_of_nat (max 1 (length us))))
    \<and> (\<exists>ws. roll w m g None = Inr ws
          \<and> length ws = min (nat (winnerCount g)) (length us)
          \<and> (\<forall>x. Some x \<in> set ws \<longrightarrow> member_id x \<in> uid ` set us)
          \<and> (us \<noteq> [] \<and> 0 \<le> winnerCount g \<longrightarrow>
               winningChance w m g = Inr (rat_of_nat (length ws) / rat_of_nat (length us))))"
proof -
  let ?drawn = "List.map_filter id (collection_random (random_values w) (requested g None) us)"
  have wc: "winningChance w m g
           = Inr (min 1 (rat_of_int (winnerCount g) / rat_of_nat (max 1 (length us))))"
    using el by (simp add: winningChance_def)
  from roll_from_eligible[OF el, of None] obtain gd where
    roll: "roll w m g None = Inr (map (\<lambda>u. guild_member gd (uid u)) ?drawn)"
    by blast
  let ?ws = "map (\<lambda>u. guild_member gd (uid u)) ?drawn"
  have req: "requested g None = winnerCount g" by (simp add: requested_def)
  have len: "length ?ws = min (nat (winnerCount g)) (length us)"
    by (simp add: collection_random_length req)
  have sub: "set ?drawn \<subseteq> set us" by (rule collection_random_set)
  have ids: "\<forall>x. Some x \<in> set ?ws \<longrightarrow> member_id x \<in> uid ` set us"
  proof (intro allI impI)
    fix x assume "Some x \<in> set ?ws"
    then obtain u where u: "u \<in> set ?drawn" and "guild_member gd (uid u) = Some x" by auto
    then have "member_id x = uid u" by (simp add: guild_member_id)
    with u sub show "member_id x \<in> uid ` set us" by auto
  qed
  have frac: "winningChance w m g = Inr (rat_of_nat (length ?ws) / rat_of_nat (length us))"
    if ne: "us \<noteq> []" and nonneg: "0 \<le> winnerCount g"
  proof -
    define k where "k = nat (winnerCount g)"
    define l where "l = length us"
    from ne have pos: "0 < l" by (simp add: l_def)
    from nonneg have kk: "rat_of_int (winnerCount g) = rat_of_nat k" by (simp add: k_def)
    have mx: "max 1 l = l" using pos by simp
    have "min 1 (rat_of_nat k / rat_of_nat l) = rat_of_nat (min k l) / rat_of_nat l"
    proof (cases "k \<le> l")
      case True
      then have "rat_of_nat k / rat_of_nat l \<le> 1" using pos by simp
      with True show ?thesis by (simp add: min_def)
    next
      case False
      then have "1 \<le> rat_of_nat k / rat_of_nat l" using pos by simp
      moreover from False have "min k l = l" by simp
      ultimately show ?thesis using pos by (simp add: min_def)
    qed
    then show ?thesis
      unfolding wc len kk k_def[symmetric] l_def[symmetric] mx by simp
  qed
  have mwc: "Manager_winningChance w m mid
           = Resolved (min 1 (rat_of_int (winnerCount g) / rat_of_nat (max 1 (length us))))"
    using found obj wc by (simp add: Manager_winningChance_def)
  show ?thesis
    apply (rule conjI[OF mwc])
    apply (rule conjI[OF wc])
    apply (rule exI[of _ ?ws])
    using roll len ids frac by blast
qed

theorem winningChance_of_eligible_witness:
  "eligible ex_world
       (ex_manager ((new_Giveaway (ex_data\<lparr>o_winnerCount := 1\<rparr>))\<lparr>message := Some ex_message\<rparr>))
       ((new_Giveaway (ex_data\<lparr>o_winnerCount := 1\<rparr>))\<lparr>message := Some ex_message\<rparr>)
     = Inr [alice, bob]
   \<and> find_giveaway
       (ex_manager ((new_Giveaway (ex_data\<lparr>o_winnerCount := 1\<rparr>))\<lparr>message := Some ex_message\<rparr>))
       (Some ''m1'') = Some 0
   \<and> Manager_winningChance ex_world
       (ex_manager ((new_Giveaway (ex_data\<lparr>o_winnerCount := 1\<rparr>))\<lparr>message := Some ex_message\<rparr>))
       (Some ''m1'')
     = Resolved (1 / 2)
   \<and> winningChance ex_world
       (ex_manager ((new_Giveaway (ex_data\<lparr>o_winnerCount := 1\<rparr>))\<lparr>message := Some ex_message\<rparr>))
       ((new_Giveaway (ex_data\<lparr>o_winnerCount := 1\<rparr>))\<lparr>message := Some ex_message\<rparr>)
     = Inr (1 / 2)"
proof -
  let ?g = "(new_Giveaway (ex_data\<lparr>o_winnerCount := 1\<rparr>))\<lparr>message := Some ex_message\<rparr>"
  let ?m = "ex_manager ?g"
  have el: "eligible ex_world ?m ?g = Inr [alice, bob]" by code_simp
  have found: "find_giveaway ?m (Some ''m1'') = Some 0" by code_simp
  have obj: "objects ?m 0 = Some ?g" by (simp add: ex_manager_def)
  have wc: "winnerCount ?g = 1" by (simp add: new_Giveaway_def)
  from winningChance_of_eligible [OF el found obj] wc
  have "Manager_winningChance ex_world ?m (Some ''m1'') = Resolved (1 / 2)"
    and "winningChance ex_world ?m ?g = Inr (1 / 2)"
    by simp_all
  with el found show ?thesis by blast
qed

section \<open>The exemption predicate\<close>

lemma exemptMembers_own_caught:
  "o_exemptMembers (options g) = Some f \<Longrightarrow> f mem = Inl e \<Longrightarrow> exemptMembers m g mem = Inr False"
  by (simp add: exemptMembers_def)

lemma exemptMembers_default_thrown:
  "o_exemptMembers (options g) = None \<Longrightarrow> default_exemptMembers m = Some f \<Longrightarrow> f mem = Inl e
   \<Longrightarrow> exemptMembers m g mem = Inl e"
  by (simp add: exemptMembers_def)

text \<open>C6, evaluated. A predicate of the manager's defaults that throws is not caught:
  \<open>exemptMembers\<close> passes the exception on, and \<open>roll\<close> fails with it. The same
  predicate set on the giveaway is caught and gives \<open>false\<close>.\<close>

theorem exemptMembers_default_propagates:
  "exemptMembers
     ((ex_manager (new_Giveaway ex_data))
        \<lparr>default_exemptMembers := Some (\<lambda>mem. Inl (Thrown ''predicate failed''))\<rparr>)
     (new_Giveaway ex_data) \<lparr>member_id = ''u1'', permissions = []\<rparr>
     = Inl (Thrown ''predicate failed'')
   \<and> exemptMembers (ex_manager (new_Giveaway ex_data))
       (new_Giveaway (ex_data\<lparr>o_exemptMembers := Some (\<lambda>mem. Inl (Thrown ''predicate failed''))\<rparr>))
       \<lparr>member_id = ''u1'', permissions = []\<rparr>
     = Inr False
   \<and> roll ex_world
       ((ex_manager (new_Giveaway ex_data))
          \<lparr>default_exemptMembers := Some (\<lambda>mem. Inl (Thrown ''predicate failed''))\<rparr>)
       ((new_Giveaway ex_data)\<lparr>message := Some ex_message\<rparr>) None
     = Inl (Thrown ''predicate failed'')"
  by code_simp

section \<open>Editing a giveaway\<close>

lemma fetchMessage_fetched:
  assumes "objects m a = Some g" and "messageID g = Some mid" and "mid \<noteq> []"
    and "channel w g = Some ch" and "channel_messages ch mid = Some msg"
  shows "fetchMessage w m a =
    (Resolved msg, m\<lparr>objects := (objects m)(a \<mapsto> g\<lparr>message := Some msg\<rparr>)\<rparr>)"
  using assms by (simp add: fetchMessage_def)

text \<open>C5, as the code has it. For a giveaway that has not ended, whose channel is known
  and whose announcement is fetched, \<open>edit\<close> resolves and applies each option that is
  present and truthy: a number of winners other than zero, a prize other than the empty
  string, a time to add, an end time stamp other than zero (which wins over the time to
  add). An option that is absent or falsy leaves its field as it was. No other field of
  the record changes (the giveaway keeps the fetched message), no other giveaway
  changes, and the collection is the same.\<close>

theorem edit_applies_truthy_options:
  assumes "objects m a = Some g" and "\<not> ended g"
    and "messageID g = Some mid" and "mid \<noteq> []"
    and "channel w g = Some ch" and "channel_messages ch mid = Some msg"
  shows "fst (edit w m a opts) = Resolved a
    \<and> objects (snd (edit w m a opts)) a
        = Some (g\<lparr> message := Some msg,
                   winnerCount := (case newWinnerCount opts of
                                     Some n \<Rightarrow> if n \<noteq> 0 then n else winnerCount g
                                   | None \<Rightarrow> winnerCount g),
                   prize := (case newPrize opts of
                               Some p \<Rightarrow> if p \<noteq> [] then p else prize g
                             | None \<Rightarrow> prize g),
                   endAt := (case setEndTimestamp opts of
                               Some t \<Rightarrow> if t \<noteq> 0 then t
                                         else endAt g + (case addTime opts of Some d \<Rightarrow> d | None \<Rightarrow> 0)
                             | None \<Rightarrow> endAt g + (case addTime opts of Some d \<Rightarrow> d | None \<Rightarrow> 0)) \<rparr>)
    \<and> (\<forall>b. b \<noteq> a \<longrightarrow> objects (snd (edit w m a opts)) b = objects m b)
    \<and> giveaways (snd (edit w m a opts)) = giveaways m"
proof -
  let ?g1 = "g\<lparr>message := Some msg\<rparr>"
  let ?m1 = "m\<lparr>objects := (objects m)(a \<mapsto> ?g1)\<rparr>"
  have fm: "fetchMessage w m a = (Resolved msg, ?m1)"
    using assms by (simp add: fetchMessage_fetched)
  have e: "edit w m a opts
      = (Resolved a, editGiveaway (?m1\<lparr>objects := (objects ?m1)(a \<mapsto> update_data opts ?g1)\<rparr>))"
    using assms(1,2,5) by (simp add: edit_def fm)
  have u: "update_data opts ?g1
        = g\<lparr> message := Some msg,
                   winnerCount := (case newWinnerCount opts of
                                     Some n \<Rightarrow> if n \<noteq> 0 then n else winnerCount g
                                   | None \<Rightarrow> winnerCount g),
                   prize := (case newPrize opts of
                               Some p \<Rightarrow> if p \<noteq> [] then p else prize g
                             | None \<Rightarrow> prize g),
                   endAt := (case setEndTimestamp opts of
                               Some t \<Rightarrow> if t \<noteq> 0 then t
                                         else endAt g + (case addTime opts of Some d \<Rightarrow> d | None \<Rightarrow> 0)
                             | None \<Rightarrow> endAt g + (case addTime opts of Some d \<Rightarrow> d | None \<Rightarrow> 0)) \<rparr>"
    by (simp add: update_data_def Let_def split: option.splits)
  show ?thesis
    unfolding e fst_conv snd_conv
    by (simp add: objects_editGiveaway u editGiveaway_def write_storage_def)
qed

theorem edit_applies_truthy_options_witness:
  "\<not> ended (new_Giveaway ex_data)
   \<and> channel_messages ex_channel ''m1'' = Some ex_message
   \<and> fst (edit ex_world (ex_manager (new_Giveaway ex_data)) 0
            \<lparr>newWinnerCount = Some 3, newPrize = None, addTime = Some 500,
             setEndTimestamp = None\<rparr>) = Resolved 0
   \<and> objects (snd (edit ex_world (ex_manager (new_Giveaway ex_data)) 0
            \<lparr>newWinnerCount = Some 3, newPrize = None, addTime = Some 500,
             setEndTimestamp = None\<rparr>)) 0
     = Some ((new_Giveaway ex_data)
               \<lparr>message := Some ex_message, winnerCount := 3, prize := ''Key'', endAt := 11500\<rparr>)"
proof -
  let ?g = "new_Giveaway ex_data"
  let ?m = "ex_manager ?g"
  let ?o = "\<lparr>newWinnerCount = Some 3, newPrize = None, addTime = Some 500,
             setEndTimestamp = None\<rparr>"
  have h1: "objects ?m 0 = Some ?g" by (simp add: ex_manager_def)
  have h2: "\<not> ended ?g" by (simp add: new_Giveaway_def ex_data_def)
  have h3: "messageID ?g = Some ''m1''" by (simp add: new_Giveaway_def ex_data_def)
  have h4: "''m1'' \<noteq> []" by simp
  have h5: "channel ex_world ?g = Some ex_channel"
    by (simp add: channel_def ex_world_def new_Giveaway_def ex_data_def)
  have h6: "channel_messages ex_channel ''m1'' = Some ex_message"
    by (simp add: ex_channel_def)
  have v: "winnerCount ?g = 2" "prize ?g = ''Key''" "endAt ?g = 11000"
    by (simp_all add: new_Giveaway_def ex_data_def)
  from edit_applies_truthy_options [OF h1 h2 h3 h4 h5 h6, of ?o] v h2 h6
  show ?thesis by simp
qed

text \<open>C5 as it is stated fails for an option that is present with a falsy value: an end
  time stamp of zero, an empty prize and a number of winners of zero are in the options
  and are not applied.\<close>

theorem edit_falsy_option_counterexample:
  "fst (edit ex_world (ex_manager (new_Giveaway ex_data)) 0
          \<lparr>newWinnerCount = Some 0, newPrize = Some [], addTime = None,
           setEndTimestamp = Some 0\<rparr>) = Resolved 0
   \<and> map_option endAt
       (objects (snd (edit ex_world (ex_manager (new_Giveaway ex_data)) 0
          \<lparr>newWinnerCount = Some 0, newPrize = Some [], addTime = None,
           setEndTimestamp = Some 0\<rparr>)) 0) = Some 11000
   \<and> map_option prize
       (objects (snd (edit ex_world (ex_manager (new_Giveaway ex_data)) 0
          \<lparr>newWinnerCount = Some 0, newPrize = Some [], addTime = None,
           setEndTimestamp = Some 0\<rparr>)) 0) = Some ''Key''
   \<and> map_option winnerCount
       (objects (snd (edit ex_world (ex_manager (new_Giveaway ex_data)) 0
          \<lparr>newWinnerCount = Some 0, newPrize = Some [], addTime = None,
           setEndTimestamp = Some 0\<rparr>)) 0) = Some 2"
  by code_simp

section \<open>An ended giveaway stays as it is\<close>

text \<open>Each operation is followed through the store of objects: what it does to a
  giveaway other than its own, and what it does to a giveaway that has ended.\<close>

lemma remainingTime_eq:
  "remainingTime w m g = (endAt g - clock w (clock_reads m), m\<lparr>clock_reads := Suc (clock_reads m)\<rparr>)"
  by (simp add: remainingTime_def Date_now_def)

lemma fetchMessage_otherD:
  "fetchMessage w m a = (r, m1) \<Longrightarrow> b \<noteq> a \<Longrightarrow> objects m1 b = objects m b"
  by (auto simp: fetchMessage_def objects_deleteGiveaway split: option.splits if_splits)

lemma fetchMessage_sameD:
  "fetchMessage w m a = (r, m1) \<Longrightarrow> objects m a = Some g
   \<Longrightarrow> \<exists>g'. objects m1 a = Some g' \<and> g' = g\<lparr>message := message g'\<rparr>"
  by (auto simp: fetchMessage_def objects_deleteGiveaway split: option.splits if_splits)

lemma end_giveaway_other:
  "b \<noteq> a \<Longrightarrow> objects (snd (end_giveaway w m a)) b = objects m b"
proof (cases "objects m a")
  case None
  then show ?thesis by (simp add: end_giveaway_def)
next
  case (Some g)
  assume ne: "b \<noteq> a"
  let ?m0 = "m\<lparr>objects := (objects m)(a \<mapsto> g\<lparr>ended := True\<rparr>)\<rparr>"
  have f: "objects m1 b = objects m b" if "fetchMessage w ?m0 a = (r, m1)" for r m1
    using fetchMessage_otherD[OF that ne] ne by simp
  show ?thesis
    using Some
    by (auto simp: end_giveaway_def objects_editGiveaway f
             split: option.splits prod.splits promise.splits sum.splits)
qed

lemma end_giveaway_kept:
  assumes "objects m b = Some g" and "ended g"
  shows "objects (snd (end_giveaway w m a)) b = Some g"
proof (cases "b = a")
  case True
  with assms show ?thesis by (simp add: end_giveaway_def)
next
  case False
  with assms show ?thesis by (simp add: end_giveaway_other)
qed

lemma Manager_end_kept:
  assumes "objects m b = Some g" and "ended g"
  shows "objects (snd (Manager_end w m mid)) b = Some g"
  using assms by (simp add: Manager_end_def end_giveaway_kept split: option.splits)

lemma edit_other:
  "b \<noteq> a \<Longrightarrow> objects (snd (edit w m a opts)) b = objects m b"
  by (auto simp: edit_def objects_editGiveaway
           split: option.splits prod.splits promise.splits dest: fetchMessage_otherD)

lemma edit_kept:
  assumes "objects m b = Some g" and "ended g"
  shows "objects (snd (edit w m a opts)) b = Some g"
proof (cases "b = a")
  case True
  with assms show ?thesis by (simp add: edit_def)
next
  case False
  with assms show ?thesis by (simp add: edit_other)
qed

lemma Manager_edit_kept:
  assumes "objects m b = Some g" and "ended g"
  shows "objects (snd (Manager_edit w m mid opts)) b = Some g"
  using assms by (simp add: Manager_edit_def edit_kept split: option.splits)

lemma reroll_kept:
  assumes "objects m b = Some g"
  shows "\<exists>g'. objects (snd (reroll w m a opts)) b = Some g' \<and> g' = g\<lparr>message := message g'\<rparr>"
proof (cases "b = a")
  case True
  with assms show ?thesis
    by (auto simp: reroll_def split: option.splits prod.splits promise.splits sum.splits
             dest: fetchMessage_sameD)
next
  case False
  with assms show ?thesis
    by (auto simp: reroll_def split: option.splits prod.splits promise.splits sum.splits
             dest: fetchMessage_otherD)
qed

lemma refresh_serverslist_other:
  "b \<noteq> a \<Longrightarrow> objects (snd (refresh_serverslist w m a)) b = objects m b"
  by (auto simp: refresh_serverslist_def Let_def objects_editGiveaway split: option.splits)

lemma checkGiveaway_each_kept:
  assumes "objects m b = Some g" and "ended g"
  shows "objects (checkGiveaway_each w a m) b = Some g"
proof (cases "objects m a")
  case None
  with assms show ?thesis by (simp add: checkGiveaway_each_def)
next
  case (Some ga)
  show ?thesis
  proof (cases "ended ga")
    case True
    with Some assms show ?thesis by (simp add: checkGiveaway_each_def)
  next
    case False
    with Some assms have ne: "b \<noteq> a" by auto
    let ?m0 = "m\<lparr>clock_reads := Suc (clock_reads m)\<rparr>"
    have k0: "objects ?m0 b = Some g" using assms by simp
    have f: "objects m1 b = Some g" if "fetchMessage w ?m0 a = (r, m1)" for r m1
      using fetchMessage_otherD[OF that ne] k0 by simp
    show ?thesis
      using Some False ne assms Manager_end_kept[OF k0 assms(2)]
      by (auto simp: checkGiveaway_each_def remainingTime_eq objects_editGiveaway f
               split: option.splits prod.splits promise.splits)
  qed
qed

lemma updateServerRequirement_each_kept:
  assumes "objects m b = Some g" and "ended g"
  shows "objects (updateServerRequirement_each w a m) b = Some g"
proof (cases "objects m a")
  case None
  with assms show ?thesis by (simp add: updateServerRequirement_each_def)
next
  case (Some ga)
  show ?thesis
  proof (cases "ended ga")
    case True
    with Some assms show ?thesis by (simp add: updateServerRequirement_each_def)
  next
    case False
    with Some assms have ne: "b \<noteq> a" by auto
    have f: "objects m1 b = Some g" if "fetchMessage w m a = (r, m1)" for r m1
      using fetchMessage_otherD[OF that ne] assms by simp
    show ?thesis
      using Some False ne assms
      by (auto simp: updateServerRequirement_each_def refresh_serverslist_other f
               split: option.splits prod.splits promise.splits)
  qed
qed

lemma final_countdown_kept:
  assumes "objects m b = Some g" and "ended g" and "b \<noteq> a"
  shows "objects (final_countdown w a m) b = Some g"
proof -
  have me: "objects (snd (Manager_end w m' mid)) b = Some g" if "objects m' b = Some g" for m' mid
    using Manager_end_kept[OF that assms(2)] .
  show ?thesis
    using assms
    by (auto simp: final_countdown_def remainingTime_eq objects_editGiveaway Let_def
             intro!: me split: option.splits sum.splits)
qed

lemma lastGiveaway_each_kept:
  assumes "objects m b = Some g" and "ended g"
  shows "objects (lastGiveaway_each w a m) b = Some g"
proof (cases "objects m a")
  case None
  with assms show ?thesis by (simp add: lastGiveaway_each_def)
next
  case (Some ga)
  show ?thesis
  proof (cases "ended ga")
    case True
    with Some assms show ?thesis by (simp add: lastGiveaway_each_def)
  next
    case False
    with Some assms have ne: "b \<noteq> a" by auto
    let ?m0 = "m\<lparr>clock_reads := Suc (clock_reads m)\<rparr>"
    have k0: "objects ?m0 b = Some g" using assms by simp
    have f: "objects m1 b = Some g" if "fetchMessage w ?m0 a = (r, m1)" for r m1
      using fetchMessage_otherD[OF that ne] k0 by simp
    have fc: "objects (final_countdown w a m1) b = Some g"
      if "fetchMessage w ?m0 a = (r, m1)" for r m1
      using final_countdown_kept[OF f[OF that] assms(2) ne] .
    show ?thesis
      using Some False assms Manager_end_kept[OF k0 assms(2)]
      by (auto simp: lastGiveaway_each_def remainingTime_eq f fc
               split: prod.splits promise.splits)
  qed
qed

lemma fold_kept:
  assumes step: "\<And>a m. objects m b = Some g \<Longrightarrow> objects (f a m) b = Some g"
    and "objects m b = Some g"
  shows "objects (fold f xs m) b = Some g"
  using assms(2) by (induction xs arbitrary: m) (simp_all add: step)

text \<open>C9. Operations run one after the other. Once a giveaway has ended, \<open>edit\<close>,
  \<open>end\<close>, the three ticks of the scheduler (each run over the whole collection) and the
  requirement refresh leave every one of its fields as it is, whichever giveaway they
  are called for; \<open>reroll\<close> writes nothing
  but the message it has fetched, which is not part of the record. So no field of the
  record changes, \<open>serverslist\<close> included, and \<open>ended\<close> stays true.\<close>

theorem ended_is_final:
  assumes "objects m b = Some g" and "ended g"
  shows "objects (snd (edit w m a eo)) b = Some g
       \<and> objects (snd (Manager_edit w m mid eo)) b = Some g
       \<and> objects (snd (end_giveaway w m a)) b = Some g
       \<and> objects (snd (Manager_end w m mid)) b = Some g
       \<and> objects (checkGiveaway w m) b = Some g
       \<and> objects (lastGiveaway w m) b = Some g
       \<and> objects (updateServerRequirement_all w m) b = Some g
       \<and> (\<exists>g'. objects (snd (reroll w m a ro)) b = Some g'
               \<and> g' = g\<lparr>message := message g'\<rparr> \<and> data g' = data g \<and> ended g')"
proof -
  have c: "objects (checkGiveaway w m) b = Some g"
    unfolding checkGiveaway_def
    using assms by (simp add: fold_kept checkGiveaway_each_kept)
  have l: "objects (lastGiveaway w m) b = Some g"
    unfolding lastGiveaway_def
    using assms by (simp add: fold_kept lastGiveaway_each_kept)
  have u: "objects (updateServerRequirement_all w m) b = Some g"
    unfolding updateServerRequirement_all_def
    using assms by (simp add: fold_kept updateServerRequirement_each_kept)
  from reroll_kept[OF assms(1), of w a ro] obtain g' where
    g': "objects (snd (reroll w m a ro)) b = Some g'" and eq: "g' = g\<lparr>message := message g'\<rparr>"
    by blast
  from eq have "data g' = data (g\<lparr>message := message g'\<rparr>)" and "ended g' = ended (g\<lparr>message := message g'\<rparr>)"
    by simp_all
  then have "data g' = data g" and "ended g'"
    using assms(2) by (simp_all add: data_def)
  with g' eq have r: "\<exists>g'. objects (snd (reroll w m a ro)) b = Some g'
               \<and> g' = g\<lparr>message := message g'\<rparr> \<and> data g' = data g \<and> ended g'"
    by blast
  from assms c l u r show ?thesis
    by (simp add: edit_kept Manager_edit_kept end_giveaway_kept Manager_end_kept)
qed

theorem ended_is_final_witness:
  "ended (new_Giveaway (ex_data\<lparr>o_ended := True\<rparr>))
   \<and> objects (snd (edit ex_world (ex_manager (new_Giveaway (ex_data\<lparr>o_ended := True\<rparr>))) 0
        \<lparr>newWinnerCount = Some 3, newPrize = None, addTime = Some 500,
         setEndTimestamp = None\<rparr>)) 0
     = Some (new_Giveaway (ex_data\<lparr>o_ended := True\<rparr>))
   \<and> objects (checkGiveaway ex_world (ex_manager (new_Giveaway (ex_data\<lparr>o_ended := True\<rparr>)))) 0
     = Some (new_Giveaway (ex_data\<lparr>o_ended := True\<rparr>))
   \<and> objects (lastGiveaway ex_world (ex_manager (new_Giveaway (ex_data\<lparr>o_ended := True\<rparr>)))) 0
     = Some (new_Giveaway (ex_data\<lparr>o_ended := True\<rparr>))"
proof -
  let ?g = "new_Giveaway (ex_data\<lparr>o_ended := True\<rparr>)"
  have h1: "objects (ex_manager ?g) 0 = Some ?g" by (simp add: ex_manager_def)
  have h2: "ended ?g" by (simp add: new_Giveaway_def)
  from ended_is_final [OF h1 h2, of ex_world 0] h2 show ?thesis by blast
qed

section \<open>The storage file round trip\<close>

lemma persisted_written: "persisted (stringify (data g))"
  by (simp add: persisted_def stringify_def data_def)

lemma data_new_Giveaway:
  "persisted d \<Longrightarrow> stringify (data (new_Giveaway d)) = d"
  by (cases d) (simp add: persisted_def stringify_def data_def new_Giveaway_def split: option.splits)

lemma map_filter_cong_set:
  "(\<And>x. x \<in> set xs \<Longrightarrow> f x = h x) \<Longrightarrow> List.map_filter f xs = List.map_filter h xs"
  by (induction xs) (auto simp: List.map_filter_simps split: option.splits)

lemma map_filter_append:
  "List.map_filter f (xs @ ys) = List.map_filter f xs @ List.map_filter f ys"
  by (simp add: List.map_filter_def)

lemma fold_push_new_written:
  assumes "\<forall>a \<in> set (giveaways m). a < next_ref m"
  shows "List.map_filter (\<lambda>a. map_option F (objects (fold push_new ds m) a))
           (giveaways (fold push_new ds m))
       = List.map_filter (\<lambda>a. map_option F (objects m a)) (giveaways m)
           @ map (\<lambda>d. F (new_Giveaway d)) ds"
  using assms
proof (induction ds arbitrary: m)
  case Nil
  then show ?case by simp
next
  case (Cons d ds)
  let ?m = "push_new d m"
  have inv: "\<forall>a \<in> set (giveaways ?m). a < next_ref ?m"
    using Cons.prems by (auto simp: push_new_def)
  have same: "List.map_filter (\<lambda>a. map_option F (objects ?m a)) (giveaways m)
      = List.map_filter (\<lambda>a. map_option F (objects m a)) (giveaways m)"
    using Cons.prems by (intro map_filter_cong_set) (auto simp: push_new_def)
  have "List.map_filter (\<lambda>a. map_option F (objects ?m a)) (giveaways ?m)
      = List.map_filter (\<lambda>a. map_option F (objects ?m a)) (giveaways m)
          @ List.map_filter (\<lambda>a. map_option F (objects ?m a)) [next_ref m]"
    by (simp add: push_new_def map_filter_append)
  also have "\<dots> = List.map_filter (\<lambda>a. map_option F (objects m a)) (giveaways m)
          @ [F (new_Giveaway d)]"
    unfolding same by (simp add: push_new_def List.map_filter_simps)
  finally have step: "List.map_filter (\<lambda>a. map_option F (objects ?m a)) (giveaways ?m)
      = List.map_filter (\<lambda>a. map_option F (objects m a)) (giveaways m) @ [F (new_Giveaway d)]" .
  show ?case
    using Cons.IH[OF inv] step by simp
qed

lemma fold_push_new_frame:
  "storage (fold push_new ds m) = storage m
   \<and> length (giveaways (fold push_new ds m)) = length (giveaways m) + length ds"
  by (induction ds arbitrary: m) (simp_all add: push_new_def)

lemma storage_saveGiveaway:
  "storage (saveGiveaway m)
     = Records (List.map_filter (\<lambda>a. map_option (\<lambda>g. stringify (data g)) (objects m a))
                  (giveaways m))"
  by (simp add: saveGiveaway_def write_storage_def)

text \<open>C8. When the storage file is absent, reading it yields the empty collection and
  creates the file with an empty array. When the file holds records as the manager
  writes them, a manager that starts up on it reads them all, and saving writes back
  the same records, field for field and in the same order: the save writes them from the
  collection it has loaded, whatever the file holds (\<open>file\<close>) at the time of the save.\<close>

theorem storage_round_trip:
  "(storage m = Absent \<longrightarrow>
      getAllGiveaways m = (Inr [], m\<lparr>storage := Records []\<rparr>)
      \<and> giveaways (init m) = giveaways m
      \<and> storage (init m) = Records []
      \<and> (giveaways m = [] \<longrightarrow>
            storage (saveGiveaway ((init m)\<lparr>storage := file\<rparr>)) = Records []))
   \<and> (storage m = Records ds \<and> giveaways m = [] \<and> (\<forall>d \<in> set ds. persisted d) \<longrightarrow>
        getAllGiveaways m = (Inr ds, m)
        \<and> length (giveaways (init m)) = length ds
        \<and> storage (saveGiveaway (init m)) = Records ds
        \<and> storage (saveGiveaway ((init m)\<lparr>storage := file\<rparr>)) = Records ds)"
proof (intro conjI impI)
  assume ab: "storage m = Absent"
  then show "getAllGiveaways m = (Inr [], m\<lparr>storage := Records []\<rparr>)"
    and "giveaways (init m) = giveaways m" and "storage (init m) = Records []"
    by (simp_all add: getAllGiveaways_def init_def)
  assume "giveaways m = []"
  with ab show "storage (saveGiveaway ((init m)\<lparr>storage := file\<rparr>)) = Records []"
    by (simp add: storage_saveGiveaway getAllGiveaways_def init_def List.map_filter_simps)
next
  assume a: "storage m = Records ds \<and> giveaways m = [] \<and> (\<forall>d \<in> set ds. persisted d)"
  then show g: "getAllGiveaways m = (Inr ds, m)"
    by (simp add: getAllGiveaways_def)
  then have i: "init m = (fold push_new ds m)\<lparr>ready := True\<rparr>"
    by (simp add: init_def)
  show "length (giveaways (init m)) = length ds"
    using a by (simp add: i fold_push_new_frame)
  have "map (\<lambda>d. stringify (data (new_Giveaway d))) ds = ds"
    using a by (simp add: data_new_Giveaway map_idI)
  moreover have "List.map_filter (\<lambda>a. map_option (\<lambda>g. stringify (data g))
            (objects (fold push_new ds m) a)) (giveaways (fold push_new ds m))
       = map (\<lambda>d. stringify (data (new_Giveaway d))) ds"
    using a fold_push_new_written[of m "\<lambda>g. stringify (data g)" ds]
    by (simp add: List.map_filter_simps)
  ultimately have w: "List.map_filter (\<lambda>a. map_option (\<lambda>g. stringify (data g))
            (objects (fold push_new ds m) a)) (giveaways (fold push_new ds m)) = ds"
    by simp
  show "storage (saveGiveaway (init m)) = Records ds"
    by (simp add: storage_saveGiveaway i w)
  show "storage (saveGiveaway ((init m)\<lparr>storage := file\<rparr>)) = Records ds"
    by (simp add: storage_saveGiveaway i w)
qed

theorem storage_round_trip_witness:
  "storage (new_manager Absent) = Absent
   \<and> getAllGiveaways (new_manager Absent)
       = (Inr [], (new_manager Absent)\<lparr>storage := Records []\<rparr>)
   \<and> storage (saveGiveaway ((init (new_manager Absent))\<lparr>storage := Unparsable\<rparr>))
       = Records []
   \<and> persisted ex_data
   \<and> storage (saveGiveaway
        (init (new_manager (Records [ex_data, ex_data\<lparr>o_messageID := Some ''m7'', o_ended := True\<rparr>]))))
       = Records [ex_data, ex_data\<lparr>o_messageID := Some ''m7'', o_ended := True\<rparr>]
   \<and> storage (saveGiveaway
        ((init (new_manager (Records [ex_data, ex_data\<lparr>o_messageID := Some ''m7'', o_ended := True\<rparr>])))
           \<lparr>storage := Absent\<rparr>))
       = Records [ex_data, ex_data\<lparr>o_messageID := Some ''m7'', o_ended := True\<rparr>]"
proof -
  let ?ds = "[ex_data, ex_data\<lparr>o_messageID := Some ''m7'', o_ended := True\<rparr>]"
  have h1: "storage (new_manager Absent) = Absent" by (simp add: new_manager_def)
  have h1': "giveaways (new_manager Absent) = []" by (simp add: new_manager_def)
  have p: "persisted ex_data" by (simp add: persisted_def ex_data_def)
  have h2: "storage (new_manager (Records ?ds)) = Records ?ds
      \<and> giveaways (new_manager (Records ?ds)) = [] \<and> (\<forall>d \<in> set ?ds. persisted d)"
    by (simp add: new_manager_def persisted_def ex_data_def)
  from storage_round_trip [of "new_manager Absent" Unparsable "[]"] h1 h1'
  have a: "getAllGiveaways (new_manager Absent)
       = (Inr [], (new_manager Absent)\<lparr>storage := Records []\<rparr>)"
    and a': "storage (saveGiveaway ((init (new_manager Absent))\<lparr>storage := Unparsable\<rparr>))
       = Records []"
    by blast+
  from storage_round_trip [of "new_manager (Records ?ds)" Absent ?ds] h2
  have b: "storage (saveGiveaway (init (new_manager (Records ?ds)))) = Records ?ds"
    and b': "storage (saveGiveaway ((init (new_manager (Records ?ds)))\<lparr>storage := Absent\<rparr>))
       = Records ?ds"
    by blast+
  from h1 a a' p b b' show ?thesis by blast
qed

section \<open>Starting a giveaway: the record\<close>

text \<open>Nothing that runs after the constructor (the fetch, the requirement refresh, an
  early end) writes the start, the end or the number of winners of any giveaway.\<close>

lemma fetchMessage_agreed:
  "fetchMessage w m a = (r, m1) \<Longrightarrow>
   map_option agreed (objects m1 b) = map_option agreed (objects m b)"
  by (auto simp: fetchMessage_def agreed_def objects_deleteGiveaway
           split: option.splits if_splits)

lemma end_giveaway_agreed:
  "map_option agreed (objects (snd (end_giveaway w m a)) b) = map_option agreed (objects m b)"
proof (cases "objects m a")
  case None
  then show ?thesis by (simp add: end_giveaway_def)
next
  case (Some g)
  let ?m0 = "m\<lparr>objects := (objects m)(a \<mapsto> g\<lparr>ended := True\<rparr>)\<rparr>"
  have m0: "map_option agreed (objects ?m0 b) = map_option agreed (objects m b)"
    using Some by (simp add: agreed_def)
  have f: "map_option agreed (objects m1 b) = map_option agreed (objects m b)"
    if "fetchMessage w ?m0 a = (r, m1)" for r m1
    using fetchMessage_agreed[OF that, of b] m0 by simp
  show ?thesis
    using Some
    by (auto simp: end_giveaway_def objects_editGiveaway f
             split: option.splits prod.splits promise.splits sum.splits)
qed

lemma Manager_end_agreed:
  "map_option agreed (objects (snd (Manager_end w m mid)) b) = map_option agreed (objects m b)"
  by (simp add: Manager_end_def end_giveaway_agreed split: option.splits)

lemma refresh_serverslist_agreed:
  "map_option agreed (objects (snd (refresh_serverslist w m a)) b)
     = map_option agreed (objects m b)"
  by (auto simp: refresh_serverslist_def Let_def objects_editGiveaway agreed_def
           split: option.splits)

lemma updateServerRequirement_agreed:
  "map_option agreed (objects (snd (updateServerRequirement w m a)) b)
     = map_option agreed (objects m b)"
proof (cases "objects m a")
  case None
  then show ?thesis by (simp add: updateServerRequirement_def)
next
  case (Some g)
  let ?m0 = "m\<lparr>clock_reads := Suc (clock_reads m)\<rparr>"
  have e: "map_option agreed (objects m1 b) = map_option agreed (objects m b)"
    if "Manager_end w ?m0 mid = (r, m1)" for r m1 mid
    using Manager_end_agreed[of w ?m0 mid b] that by simp
  have f: "map_option agreed (objects (snd (refresh_serverslist w m1 a)) b)
             = map_option agreed (objects m b)"
    if "fetchMessage w ?m0 a = (r, m1)" for r m1
    using fetchMessage_agreed[OF that, of b] by (simp add: refresh_serverslist_agreed)
  have f0: "map_option agreed (objects m1 b) = map_option agreed (objects m b)"
    if "fetchMessage w ?m0 a = (r, m1)" for r m1
    using fetchMessage_agreed[OF that, of b] by simp
  show ?thesis
    using Some
    by (auto simp: updateServerRequirement_def remainingTime_eq e f f0
             split: option.splits prod.splits promise.splits)
qed

lemma updateGiveaway_agreed:
  "map_option agreed (objects (snd (updateGiveaway w m a)) b)
     = map_option agreed (objects m b)"
proof (cases "objects m a")
  case None
  then show ?thesis by (simp add: updateGiveaway_def)
next
  case (Some g)
  let ?m0 = "m\<lparr>clock_reads := Suc (clock_reads m)\<rparr>"
  have e: "map_option agreed (objects m1 b) = map_option agreed (objects m b)"
    if "Manager_end w ?m0 mid = (r, m1)" for r m1 mid
    using Manager_end_agreed[of w ?m0 mid b] that by simp
  have f: "map_option agreed (objects m1 b) = map_option agreed (objects m b)"
    if "fetchMessage w ?m0 a = (r, m1)" for r m1
    using fetchMessage_agreed[OF that, of b] by simp
  have u: "map_option agreed (objects m2 b) = map_option agreed (objects m1 b)"
    if "updateServerRequirement w m1 a = (r, m2)" for r m1 m2
    using updateServerRequirement_agreed[of w m1 a b] that by simp
  have g1: "map_option agreed (((objects m1)(a \<mapsto> g1\<lparr>ended := True\<rparr>)) b)
      = map_option agreed (objects m1 b)" if "objects m1 a = Some g1" for m1 g1
    using that by (simp add: agreed_def)
  show ?thesis
    using Some
    apply (simp add: updateGiveaway_def remainingTime_eq 
             split: option.splits prod.splits promise.splits sum.splits)
    apply (intro conjI impI allI)
    apply (auto simp: e f u g1 objects_editGiveaway agreed_def dest!: f u)
    done
qed

lemma start_valid_record:
  assumes "start_valid w m c opts t p n = (Resolved a, m')"
  shows "map_option agreed (objects m' a)
           = Some (clock w (clock_reads m), clock w (Suc (clock_reads m)) + t, n)"
proof -
  let ?now1 = "clock w (clock_reads m)"
  let ?now2 = "clock w (Suc (clock_reads m))"
  let ?m2 = "m\<lparr>clock_reads := Suc (Suc (clock_reads m))\<rparr>"
  let ?g = "new_Giveaway (start_data w c opts ?now1 ?now2 t p n)"
  have ag: "agreed (?g\<lparr>messageID := x\<rparr>) = (?now1, ?now2 + t, n)" for x
    by (simp add: agreed_def new_Giveaway_def start_data_def)
  have u: "map_option agreed (objects m4 b) = map_option agreed (objects m3 b)"
    if "updateGiveaway w m3 b = (r, m4)" for r m3 m4 b
    using updateGiveaway_agreed[of w m3 b b] that by simp
  from assms show ?thesis
    by (auto simp: start_valid_def Date_now_def Let_def objects_saveGiveaway ag
             split: if_splits option.splits prod.splits promise.splits dest!: u)
qed

text \<open>C1, as the code has it. When \<open>start\<close> resolves, its options have passed the
  validation (a time and a number of winners that are numbers other than zero), and the
  giveaway it resolves with has \<open>startAt\<close> equal to the first reading of the clock,
  \<open>endAt\<close> equal to the second reading of the clock plus the time, and \<open>winnerCount\<close>
  equal to the number of winners of the options. So \<open>endAt = startAt + time\<close> whenever
  the clock has not moved between the two readings, and \<open>winnerCount \<ge> 1\<close> whenever the
  caller asks for a positive number of winners.\<close>

theorem start_record:
  assumes "start w m chan opts = (Resolved a, m')"
  shows "\<exists>t n g. time opts = Some (Num t) \<and> t \<noteq> 0
           \<and> s_winnerCount opts = Some (Num n) \<and> n \<noteq> 0
           \<and> objects m' a = Some g
           \<and> startAt g = clock w (clock_reads m)
           \<and> endAt g = clock w (Suc (clock_reads m)) + t
           \<and> winnerCount g = n
           \<and> (clock w (Suc (clock_reads m)) = clock w (clock_reads m)
                \<longrightarrow> endAt g = startAt g + t)
           \<and> (0 < n \<longrightarrow> 1 \<le> winnerCount g)"
proof -
  from assms obtain c t p n where
    t: "time opts = Some (Num t)" "t \<noteq> 0"
    and n: "s_winnerCount opts = Some (Num n)" "n \<noteq> 0"
    and sv: "start_valid w m c opts t p n = (Resolved a, m')"
    by (auto simp: start_def split: if_splits option.splits jsnum.splits)
  from start_valid_record[OF sv] obtain g where
    g: "objects m' a = Some g"
    and ag: "agreed g = (clock w (clock_reads m), clock w (Suc (clock_reads m)) + t, n)"
    by auto
  from ag have "startAt g = clock w (clock_reads m)"
    and "endAt g = clock w (Suc (clock_reads m)) + t" and "winnerCount g = n"
    by (simp_all add: agreed_def)
  with t n g show ?thesis by auto
qed

theorem start_record_witness:
  "fst (start ex_world (ex_manager (new_Giveaway ex_data)) (Some ex_channel)
          (ex_start_options 10000 2)) = Resolved 1
   \<and> (\<exists>g. objects (snd (start ex_world (ex_manager (new_Giveaway ex_data)) (Some ex_channel)
                 (ex_start_options 10000 2))) 1 = Some g
          \<and> startAt g = 1000 \<and> endAt g = 11001 \<and> winnerCount g = 2)"
proof -
  let ?s = "start ex_world (ex_manager (new_Giveaway ex_data)) (Some ex_channel)
              (ex_start_options 10000 2)"
  have f: "fst ?s = Resolved 1" by code_simp
  then have h: "?s = (Resolved 1, snd ?s)" by (simp add: prod_eq_iff)
  from start_record [OF h] obtain t n g where
    "time (ex_start_options 10000 2) = Some (Num t)"
    and "s_winnerCount (ex_start_options 10000 2) = Some (Num n)"
    and "objects (snd ?s) 1 = Some g"
    and "startAt g = clock ex_world (clock_reads (ex_manager (new_Giveaway ex_data)))"
    and "endAt g = clock ex_world (Suc (clock_reads (ex_manager (new_Giveaway ex_data)))) + t"
    and "winnerCount g = n"
    by blast
  then have "objects (snd ?s) 1 = Some g \<and> startAt g = 1000 \<and> endAt g = 11001
      \<and> winnerCount g = 2"
    by (simp add: ex_start_options_def ex_world_def ex_manager_def)
  with f show ?thesis by blast
qed

text \<open>C1 as it is stated fails twice on one call: the number of winners \<open>-1\<close> is a
  number and passes the validation, and the clock moves by a millisecond between the
  reading for \<open>startAt\<close> and the reading for \<open>endAt\<close>. The giveaway has
  \<open>winnerCount = -1\<close> and \<open>endAt = 11001\<close>, not \<open>startAt + time = 11000\<close>.\<close>

theorem start_counterexample:
  "fst (start ex_world (ex_manager (new_Giveaway ex_data)) (Some ex_channel)
          (ex_start_options 10000 (- 1))) = Resolved 1
   \<and> map_option startAt
        (objects (snd (start ex_world (ex_manager (new_Giveaway ex_data)) (Some ex_channel)
          (ex_start_options 10000 (- 1)))) 1) = Some 1000
   \<and> map_option endAt
        (objects (snd (start ex_world (ex_manager (new_Giveaway ex_data)) (Some ex_channel)
          (ex_start_options 10000 (- 1)))) 1) = Some 11001
   \<and> map_option winnerCount
        (objects (snd (start ex_world (ex_manager (new_Giveaway ex_data)) (Some ex_channel)
          (ex_start_options 10000 (- 1)))) 1) = Some (- 1)"
  by code_simp

end
